theory Spec2Isabelle
  imports
    Complex_Main
    "HOL-Library.Char_ord"
    "HOL-Library.List_Lexorder"
    "HOL-Library.Multiset"
    "HOL-Library.Product_Lexorder"
begin

section \<open>Data model\<close>

text \<open>
  The module \<^verbatim>\<open>illuminator/dm.py\<close> works on pandas tables. A table is modelled as the
  list of its rows in row order, each row paired with its index label (the probe id), so
  that row order and repeated labels are kept. A floating-point cell is a real number or
  NaN; NaN is \<open>None\<close>. Arithmetic on cells is exact: rounding is not modelled.
\<close>

type_synonym float = "real option"

type_synonym 'a frame = "(string \<times> 'a) list"

text \<open>A row of \<^verbatim>\<open>annotation.genomic_ranges\<close> once the column \<^verbatim>\<open>Strand\<close> is dropped.\<close>

record genomic_range =
  Chromosome :: string
  Start :: int
  End :: int

text \<open>
  The beta matrix after \<^verbatim>\<open>set_level_as_index(betas, 'probe_id', drop_others=True)\<close> and
  the removal of the columns \<^verbatim>\<open>type\<close>, \<^verbatim>\<open>channel\<close>, \<^verbatim>\<open>probe_type\<close> and \<^verbatim>\<open>index\<close>: one
  column per sample, one row per probe, indexed by probe id.
\<close>

record betas_df =
  beta_columns :: "string list"
  beta_rows :: "float list frame"

datatype py_exception = KeyError | IndexError | ValueError | PatsyError

text \<open>The calls to \<^verbatim>\<open>LOGGER\<close>, with the values their messages print.\<close>

datatype log_record =
    Info_start_get_dmr
  | Error_no_match
  | Warning_invalid_seg_per_locus real
  | Debug_segments_per_locus real
  | Warning_cutoff_should_be_positive
  | Debug_cutoff float
  | Info_number_of_segments nat
  | Info_adding_na_segments nat
  | Info_start_get_dmp
  | Error_no_sample_name_column
  | Info_get_dmp_done

section \<open>Table operations used by \<^verbatim>\<open>get_dmr\<close>\<close>

text \<open>\<^verbatim>\<open>DataFrame.dropna()\<close>: the rows none of whose cells is NaN.\<close>

definition dropna :: "float list frame \<Rightarrow> float list frame" where
  "dropna df = filter (\<lambda>r. list_all (\<lambda>v. v \<noteq> None) (snd r)) df"

text \<open>The rows of \<open>r\<close> labelled \<open>k\<close>, in the order of \<open>r\<close>.\<close>

definition matches :: "string \<Rightarrow> 'b frame \<Rightarrow> 'b list" where
  "matches k r = map snd (filter (\<lambda>p. fst p = k) r)"

text \<open>
  \<^verbatim>\<open>left.join(right, how='inner')\<close> on the index: the rows of \<open>left\<close>, in its order, that
  have a match in \<open>right\<close>, once per match.
\<close>

definition join_inner :: "'a frame \<Rightarrow> 'b frame \<Rightarrow> ('a \<times> 'b) frame" where
  "join_inner l r = concat (map (\<lambda>(k, a). map (\<lambda>b. (k, (a, b))) (matches k r)) l)"

text \<open>
  \<^verbatim>\<open>left.join(right)\<close>: pandas' default is \<^verbatim>\<open>how='left'\<close>. Every row of \<open>left\<close> is kept; a
  row without a match gets the missing value \<open>na\<close> in the columns of \<open>right\<close>.
\<close>

definition join_left :: "'b \<Rightarrow> 'a frame \<Rightarrow> 'b frame \<Rightarrow> ('a \<times> 'b) frame" where
  "join_left na l r =
     concat (map (\<lambda>(k, a). case matches k r of
                               [] \<Rightarrow> [(k, (a, na))]
                             | b # bs \<Rightarrow> map (\<lambda>b'. (k, (a, b'))) (b # bs)) l)"

text \<open>\<^verbatim>\<open>Index.map(f)\<close>: the labels are replaced, the rows stay.\<close>

definition index_map :: "(string \<Rightarrow> string) \<Rightarrow> 'a frame \<Rightarrow> 'a frame" where
  "index_map f df = map (\<lambda>(k, a). (f k, a)) df"

text \<open>
  \<^verbatim>\<open>pr.PyRanges(cpg_ids).sort_ranges()\<close>: the rows ordered by chromosome label, then start,
  then end; labels are compared as plain strings (no natural sorting).
\<close>

definition sort_ranges ::
  "(genomic_range \<times> float list) frame \<Rightarrow> (genomic_range \<times> float list) frame" where
  "sort_ranges df =
     sort_key (\<lambda>r. (Chromosome (fst (snd r)), Start (fst (snd r)), End (fst (snd r)))) df"

text \<open>\<^verbatim>\<open>Series.shift(-1)\<close>: every value replaced by the next one, the last by a missing value.\<close>

definition shift_next :: "'a list \<Rightarrow> 'a option list" where
  "shift_next xs = (if xs = [] then [] else map Some (tl xs) @ [None])"

text \<open>\<^verbatim>\<open>cpg_ranges['Chromosome'] != next_chromosome\<close>\<close>

definition last_probe_in_chromosome ::
  "(genomic_range \<times> float list) frame \<Rightarrow> bool list" where
  "last_probe_in_chromosome cpg_ranges =
     (let chromosome = map (\<lambda>r. Chromosome (fst (snd r))) cpg_ranges;
          next_chromosome = shift_next chromosome
      in map2 (\<lambda>c n. Some c \<noteq> n) chromosome next_chromosome)"

text \<open>
  One row of \<^verbatim>\<open>(cpg_ranges[sample_names].diff(-1) ** 2).sum(axis=1)\<close>: the cells of the row
  minus those of the next row, squared, and summed with NaN cells skipped (pandas' default
  \<^verbatim>\<open>skipna=True\<close>, an all-NaN row summing to 0).
\<close>

definition float_diff_sq :: "float \<Rightarrow> float \<Rightarrow> float" where
  "float_diff_sq a b =
     (case (a, b) of (Some x, Some y) \<Rightarrow> Some ((x - y)\<^sup>2) | _ \<Rightarrow> None)"

definition nansum :: "float list \<Rightarrow> real" where
  "nansum xs = sum_list (map (\<lambda>v. case v of None \<Rightarrow> 0 | Some x \<Rightarrow> x) xs)"

definition row_dist :: "float list \<Rightarrow> float list option \<Rightarrow> real" where
  "row_dist row nxt =
     (case nxt of
        None \<Rightarrow> nansum (map (\<lambda>a. None) row)
      | Some row' \<Rightarrow> nansum (map2 float_diff_sq row row'))"

text \<open>\<^verbatim>\<open>s.iloc[-1] = v\<close>\<close>

definition set_last :: "'a \<Rightarrow> 'a list \<Rightarrow> 'a list" where
  "set_last v xs = xs[length xs - 1 := v]"

definition beta_euclidian_dist :: "(genomic_range \<times> float list) frame \<Rightarrow> float list" where
  "beta_euclidian_dist cpg_ranges =
     (let sample_values = map (\<lambda>r. snd (snd r)) cpg_ranges
      in set_last None
           (map Some (map2 row_dist sample_values (shift_next sample_values))))"

text \<open>\<^verbatim>\<open>d > dist_cutoff\<close> on floats: false as soon as one side is NaN.\<close>

definition float_gt :: "float \<Rightarrow> float \<Rightarrow> bool" where
  "float_gt a b = (case (a, b) of (Some x, Some y) \<Rightarrow> x > y | _ \<Rightarrow> False)"

definition float_le :: "float \<Rightarrow> float \<Rightarrow> bool" where
  "float_le a b = (case (a, b) of (Some x, Some y) \<Rightarrow> x \<le> y | _ \<Rightarrow> False)"

text \<open>\<^verbatim>\<open>change_points = last_probe_in_chromosome | (beta_euclidian_dist > dist_cutoff)\<close>\<close>

definition change_points ::
  "float \<Rightarrow> (genomic_range \<times> float list) frame \<Rightarrow> bool list" where
  "change_points dist_cutoff cpg_ranges =
     map2 (\<lambda>l d. l \<or> float_gt d dist_cutoff)
       (last_probe_in_chromosome cpg_ranges) (beta_euclidian_dist cpg_ranges)"

text \<open>\<^verbatim>\<open>Series.shift(fill_value=v)\<close>: every value replaced by the previous one, the first by \<open>v\<close>.\<close>

definition shift_fill :: "'a \<Rightarrow> 'a list \<Rightarrow> 'a list" where
  "shift_fill v xs = (if xs = [] then [] else v # butlast xs)"

text \<open>\<^verbatim>\<open>Series.cumsum()\<close> of a boolean series: the running count of the true values.\<close>

fun cumsum_from :: "nat \<Rightarrow> bool list \<Rightarrow> nat list" where
  "cumsum_from acc [] = []"
| "cumsum_from acc (b # bs) =
     (let acc' = acc + (if b then 1 else 0) in acc' # cumsum_from acc' bs)"

definition cumsum :: "bool list \<Rightarrow> nat list" where
  "cumsum bs = cumsum_from 0 bs"

text \<open>
  \<^verbatim>\<open>segment_id = change_points.shift(fill_value=True).cumsum()\<close>, a series with the index of
  \<^verbatim>\<open>cpg_ranges\<close>.
\<close>

definition segment_id :: "float \<Rightarrow> (genomic_range \<times> float list) frame \<Rightarrow> nat frame" where
  "segment_id dist_cutoff cpg_ranges =
     zip (map fst cpg_ranges) (cumsum (shift_fill True (change_points dist_cutoff cpg_ranges)))"

text \<open>
  \<^verbatim>\<open>df.loc[labels]\<close> with a list of labels: the rows of each label, label after label; a
  label the index does not have raises \<^verbatim>\<open>KeyError\<close>.
\<close>

fun loc :: "'a frame \<Rightarrow> string list \<Rightarrow> py_exception + 'a frame" where
  "loc df [] = Inr []"
| "loc df (k # ks) =
     (case filter (\<lambda>r. fst r = k) df of
        [] \<Rightarrow> Inl KeyError
      | r # rs \<Rightarrow>
          (case loc df ks of
             Inl e \<Rightarrow> Inl e
           | Inr rest \<Rightarrow> Inr ((r # rs) @ rest)))"

text \<open>
  \<^verbatim>\<open>sort_values('segment_id')\<close>: ascending segment id, the rows without one (NaN) last, in
  the order they had. Rows with equal ids are kept in their order here; pandas' default
  sort does not promise an order among them.
\<close>

definition sort_values_segment_id ::
  "(genomic_range \<times> nat option) frame \<Rightarrow> (genomic_range \<times> nat option) frame" where
  "sort_values_segment_id df =
     sort_key (\<lambda>r. case snd (snd r) of None \<Rightarrow> (1 :: nat, 0 :: nat) | Some s \<Rightarrow> (0, s)) df"

text \<open>
  \<^verbatim>\<open>segments.loc[na_segments_indexes, 'segment_id'] =
  [n for n in range(nb_na_segments)] + last_segment_id + 1\<close> followed by \<^verbatim>\<open>astype(int)\<close>:
  the rows without a segment id receive \<open>first\<close>, \<open>first + 1\<close>, ... in row order, where
  \<open>first\<close> is \<^verbatim>\<open>last_segment_id + 1\<close>; the other rows keep their id.
\<close>

fun assign_na_segments ::
  "nat \<Rightarrow> (genomic_range \<times> nat option) frame \<Rightarrow> (genomic_range \<times> nat) frame" where
  "assign_na_segments first [] = []"
| "assign_na_segments first ((k, c, None) # rs) =
     (k, c, first) # assign_na_segments (Suc first) rs"
| "assign_na_segments first ((k, c, Some s) # rs) =
     (k, c, s) # assign_na_segments first rs"

section \<open>\<^verbatim>\<open>get_dmr\<close>\<close>

text \<open>
  Lines 143 to 152: the coordinates of non-zero width are joined with the complete rows of
  the beta matrix; when nothing matches, the join is tried again on the labels without
  their suffix. \<^verbatim>\<open>remove_probe_suffix\<close> is defined in \<^verbatim>\<open>illuminator.utils\<close>, outside the
  files at hand, and is a parameter.
\<close>

definition join_probes ::
  "(string \<Rightarrow> string) \<Rightarrow> betas_df \<Rightarrow> genomic_range frame \<Rightarrow>
   (genomic_range \<times> float list) frame" where
  "join_probes remove_probe_suffix betas probe_coords_df =
     (let non_empty_coords_df = filter (\<lambda>r. End (snd r) > Start (snd r)) probe_coords_df;
          betas_no_na = dropna (beta_rows betas);
          cpg_ids = join_inner non_empty_coords_df betas_no_na
      in if length cpg_ids = 0
         then join_left (replicate (length (beta_columns betas)) None)
                (index_map remove_probe_suffix non_empty_coords_df) betas_no_na
         else cpg_ids)"

text \<open>
  Lines 169 to 176: the cut-off when the caller gives none. \<^verbatim>\<open>np.quantile\<close> is a parameter:
  it gets the distances of the probes that are not the last of their chromosome and the
  level \<^verbatim>\<open>1 - seg_per_locus\<close>, and returns a float or raises.
\<close>

definition determine_cutoff ::
  "(float list \<Rightarrow> real \<Rightarrow> py_exception + float) \<Rightarrow> real option \<Rightarrow> real \<Rightarrow>
   bool list \<Rightarrow> float list \<Rightarrow> log_record list \<times> (py_exception + float)" where
  "determine_cutoff quantile dist_cutoff seg_per_locus last_probe distances =
     (case dist_cutoff of
        Some c \<Rightarrow> ([], Inr (Some c))
      | None \<Rightarrow>
          (let invalid = \<not> (0 < seg_per_locus \<and> seg_per_locus < 1);
               warning = (if invalid then [Warning_invalid_seg_per_locus seg_per_locus] else []);
               seg_per_locus = (if invalid then 1 / 2 else seg_per_locus)
           in case quantile (map snd (filter (\<lambda>p. \<not> fst p) (zip last_probe distances)))
                     (1 - seg_per_locus) of
                Inl e \<Rightarrow> (warning, Inl e)
              | Inr c \<Rightarrow> (warning @ [Debug_segments_per_locus seg_per_locus], Inr c)))"

text \<open>
  Lines 189 to 201: the coordinates of every probe of the beta matrix, joined with the
  segment ids, sorted, and the missing ids filled.
\<close>

definition merge_segments ::
  "genomic_range frame \<Rightarrow> string list \<Rightarrow> nat frame \<Rightarrow>
   log_record list \<times> (py_exception + (genomic_range \<times> nat) frame)" where
  "merge_segments probe_coords_df betas_index seg_id =
     (case loc probe_coords_df betas_index of
        Inl e \<Rightarrow> ([], Inl e)
      | Inr selected \<Rightarrow>
          (let segments = sort_values_segment_id
                 (join_left None selected (map (\<lambda>(k, s). (k, Some s)) seg_id));
               last_segment_id = Max (set (map snd seg_id));
               nb_na_segments = length (filter (\<lambda>r. snd (snd r) = None) segments)
           in ([Info_number_of_segments last_segment_id] @
               (if nb_na_segments > 0 then [Info_adding_na_segments nb_na_segments] else []),
               Inr (assign_na_segments (last_segment_id + 1) segments))))"

text \<open>
  \<^verbatim>\<open>get_dmr\<close>, lines 136 to 201. The result is the log and either the exception raised or
  the table returned: the empty table of the early return, or the table \<^verbatim>\<open>segments\<close>, one
  row per probe with its coordinates and its segment id. Lines 203 to 230 add columns to
  this table (the columns of \<^verbatim>\<open>dmp\<close>, which has one row per probe, and the statistics of
  each segment, computed by scipy and statsmodels) and are not part of the model;
  \<^verbatim>\<open>dist_cutoff\<close> is \<open>None\<close> for Python's \<^verbatim>\<open>None\<close>.
\<close>

definition get_dmr ::
  "(string \<Rightarrow> string) \<Rightarrow> (float list \<Rightarrow> real \<Rightarrow> py_exception + float) \<Rightarrow>
   betas_df \<Rightarrow> genomic_range frame \<Rightarrow> real option \<Rightarrow> real \<Rightarrow>
   log_record list \<times> (py_exception + (genomic_range \<times> nat) frame)" where
  "get_dmr remove_probe_suffix quantile betas probe_coords_df dist_cutoff seg_per_locus =
     (let cpg_ids = join_probes remove_probe_suffix betas probe_coords_df
      in if length cpg_ids = 0
         then ([Info_start_get_dmr, Error_no_match], Inr [])
         else
           (let cpg_ranges = sort_ranges cpg_ids
            in case determine_cutoff quantile dist_cutoff seg_per_locus
                      (last_probe_in_chromosome cpg_ranges) (beta_euclidian_dist cpg_ranges) of
                 (log1, Inl e) \<Rightarrow> (Info_start_get_dmr # log1, Inl e)
               | (log1, Inr cutoff) \<Rightarrow>
                   (let log2 =
                          (if float_le cutoff (Some 0)
                           then [Warning_cutoff_should_be_positive] else []) @
                          [Debug_cutoff cutoff]
                    in case merge_segments probe_coords_df (map fst (beta_rows betas))
                              (segment_id cutoff cpg_ranges) of
                         (log3, r) \<Rightarrow> (Info_start_get_dmr # log1 @ log2 @ log3, r))))"

section \<open>\<^verbatim>\<open>get_dmp\<close>\<close>

text \<open>
  The sample sheet: a table with named columns. \<^verbatim>\<open>set_index\<close> moves a column to the index.
\<close>

record 'v sheet_df =
  sheet_index :: "'v list"
  sheet_columns :: "string list"
  sheet_rows :: "'v list list"

definition drop_nth :: "nat \<Rightarrow> 'a list \<Rightarrow> 'a list" where
  "drop_nth i xs = take i xs @ drop (Suc i) xs"

text \<open>
  \<^verbatim>\<open>sample_sheet.set_index('sample_name')\<close>, for a column the table has (\<^verbatim>\<open>get_dmp\<close> calls it
  after its check).
\<close>

definition set_index :: "string \<Rightarrow> 'v sheet_df \<Rightarrow> 'v sheet_df" where
  "set_index name df =
     (let i = length (takeWhile (\<lambda>c. c \<noteq> name) (sheet_columns df))
      in \<lparr>sheet_index = map (\<lambda>r. r ! i) (sheet_rows df),
          sheet_columns = drop_nth i (sheet_columns df),
          sheet_rows = map (drop_nth i) (sheet_rows df)\<rparr>)"

text \<open>The design matrix that patsy's \<^verbatim>\<open>dmatrix\<close> returns: one column per term of the model.\<close>

record design_matrix =
  dm_columns :: "string list"
  dm_rows :: "real list list"

text \<open>
  What \<^verbatim>\<open>get_model_parameters\<close> reads of a fitted statsmodels model: the p-value of the F
  test, and the t values, estimates and standard errors by term name.
\<close>

record fitted =
  f_pvalue :: float
  tvalues :: "string \<Rightarrow> float"
  params :: "string \<Rightarrow> float"
  bse :: "string \<Rightarrow> float"

text \<open>
  \<^verbatim>\<open>get_model_parameters\<close>, lines 33 to 50. \<^verbatim>\<open>OLS(betas_values, design_matrix,
  missing='drop').fit()\<close> is the parameter \<open>OLS\<close>: it returns the fitted model or raises (the
  values do not fit the design matrix, or statsmodels cannot build the model from what is
  left once the missing values are dropped). Nothing in \<^verbatim>\<open>dm.py\<close> catches the exception.
\<close>

definition get_model_parameters ::
  "(float list \<Rightarrow> design_matrix \<Rightarrow> py_exception + fitted) \<Rightarrow> float list \<Rightarrow> design_matrix \<Rightarrow>
   string list \<Rightarrow> py_exception + float list" where
  "get_model_parameters OLS betas_values design_matrix factor_names =
     (case OLS betas_values design_matrix of
        Inl e \<Rightarrow> Inl e
      | Inr fitted_ols \<Rightarrow>
          Inr (fold (\<lambda>factor results.
                       results @ [tvalues fitted_ols factor, params fitted_ols factor,
                                  bse fitted_ols factor])
                 factor_names [f_pvalue fitted_ols]))"

text \<open>\<^verbatim>\<open>str.lower()\<close> on ASCII names, and \<^verbatim>\<open>sub in s\<close> on strings.\<close>

definition lower :: "string \<Rightarrow> string" where
  "lower s =
     map (\<lambda>c. if CHR ''A'' \<le> c \<and> c \<le> CHR ''Z'' then char_of (of_char c + (32 :: nat)) else c) s"

fun starts_with :: "string \<Rightarrow> string \<Rightarrow> bool" where
  "starts_with [] s = True"
| "starts_with (c # cs) [] = False"
| "starts_with (c # cs) (d # ds) = (c = d \<and> starts_with cs ds)"

fun contains_str :: "string \<Rightarrow> string \<Rightarrow> bool" where
  "contains_str sub [] = (sub = [])"
| "contains_str sub (c # s) = (starts_with sub (c # s) \<or> contains_str sub s)"

text \<open>The table \<^verbatim>\<open>get_dmp\<close> returns.\<close>

record dmp_df =
  dmp_index :: "string list"
  dmp_columns :: "string list"
  dmp_values :: "float list list"

text \<open>
  \<^verbatim>\<open>pd.DataFrame(result_array, index=..., columns=..., dtype='float64')\<close>: pandas raises
  \<^verbatim>\<open>ValueError\<close> when the shape of the data does not fit the index and the columns.
\<close>

definition DataFrame ::
  "float list list \<Rightarrow> string list \<Rightarrow> string list \<Rightarrow> py_exception + dmp_df" where
  "DataFrame result_array index columns =
     (if length result_array = length index
         \<and> list_all (\<lambda>r. length r = length columns) result_array
      then Inr \<lparr>dmp_index = index, dmp_columns = columns, dmp_values = result_array\<rparr>
      else Inl ValueError)"

text \<open>
  A list comprehension \<^verbatim>\<open>[f(x) for x in xs]\<close> whose body may raise: the elements are taken
  in order, and the first exception ends the comprehension.
\<close>

fun list_comprehension :: "('a \<Rightarrow> py_exception + 'b) \<Rightarrow> 'a list \<Rightarrow> py_exception + 'b list" where
  "list_comprehension f [] = Inr []"
| "list_comprehension f (x # xs) =
     (case f x of
        Inl e \<Rightarrow> Inl e
      | Inr r \<Rightarrow>
          (case list_comprehension f xs of
             Inl e \<Rightarrow> Inl e
           | Inr rs \<Rightarrow> Inr (r # rs)))"

text \<open>
  Line 102, the sequential path: one call of \<^verbatim>\<open>get_model_parameters\<close> per row, in row order.
\<close>

definition fit_sequential ::
  "(float list \<Rightarrow> design_matrix \<Rightarrow> py_exception + fitted) \<Rightarrow> design_matrix \<Rightarrow> string list \<Rightarrow>
   float list list \<Rightarrow> py_exception + float list list" where
  "fit_sequential OLS design_matrix factor_names rows =
     list_comprehension (\<lambda>row. get_model_parameters OLS row design_matrix factor_names) rows"

text \<open>
  joblib's \<^verbatim>\<open>Parallel(n_jobs=-1)(delayed(f)(x) for x in xs)\<close>: one task per element, run by
  a pool of workers with nothing shared between tasks; the tasks finish in some order, and
  joblib returns the results in the order of the tasks. A task that raises ends the run,
  and its exception is raised to the caller. The order in which the tasks finish is the
  parameter \<open>finished\<close>, the list of the task numbers: each task is run when its number
  comes, its result is kept with its number, the first exception stops the pool, and the
  results are put in the order of the numbers.
\<close>

fun run_tasks ::
  "('a \<Rightarrow> py_exception + 'b) \<Rightarrow> 'a list \<Rightarrow> nat list \<Rightarrow> py_exception + (nat \<times> 'b) list" where
  "run_tasks f xs [] = Inr []"
| "run_tasks f xs (i # later) =
     (case f (xs ! i) of
        Inl e \<Rightarrow> Inl e
      | Inr r \<Rightarrow>
          (case run_tasks f xs later of
             Inl e \<Rightarrow> Inl e
           | Inr rs \<Rightarrow> Inr ((i, r) # rs)))"

definition Parallel ::
  "nat list \<Rightarrow> ('a \<Rightarrow> py_exception + 'b) \<Rightarrow> 'a list \<Rightarrow> py_exception + 'b list" where
  "Parallel finished f xs =
     (case run_tasks f xs finished of
        Inl e \<Rightarrow> Inl e
      | Inr rs \<Rightarrow> Inr (map snd (sort_key fst rs)))"

text \<open>Lines 105 to 107, the parallel path.\<close>

definition fit_parallel ::
  "nat list \<Rightarrow> (float list \<Rightarrow> design_matrix \<Rightarrow> py_exception + fitted) \<Rightarrow> design_matrix \<Rightarrow>
   string list \<Rightarrow> float list list \<Rightarrow> py_exception + float list list" where
  "fit_parallel finished OLS design_matrix factor_names rows =
     (let wrapper_get_model_parameters =
            (\<lambda>row. get_model_parameters OLS row design_matrix factor_names)
      in Parallel finished wrapper_get_model_parameters rows)"

text \<open>Lines 100 to 107.\<close>

definition fit_rows ::
  "nat list \<Rightarrow> (float list \<Rightarrow> design_matrix \<Rightarrow> py_exception + fitted) \<Rightarrow> design_matrix \<Rightarrow>
   string list \<Rightarrow> float list frame \<Rightarrow> py_exception + float list list" where
  "fit_rows finished OLS design_matrix factor_names betas =
     (if length betas \<le> 10000
      then fit_sequential OLS design_matrix factor_names (map snd betas)
      else fit_parallel finished OLS design_matrix factor_names (map snd betas))"

text \<open>
  \<^verbatim>\<open>get_dmp\<close>, lines 53 to 111. patsy's \<^verbatim>\<open>dmatrix\<close> is a parameter: it returns the design
  matrix or raises. The result is the log and either the exception raised (by \<^verbatim>\<open>dmatrix\<close>,
  by a fit or by the construction of the table) or the value returned, \<open>None\<close> for
  Python's \<^verbatim>\<open>None\<close>.
\<close>

definition get_dmp ::
  "(string \<Rightarrow> 'v sheet_df \<Rightarrow> py_exception + design_matrix) \<Rightarrow>
   (float list \<Rightarrow> design_matrix \<Rightarrow> py_exception + fitted) \<Rightarrow> nat list \<Rightarrow>
   betas_df \<Rightarrow> string \<Rightarrow> 'v sheet_df \<Rightarrow> bool \<Rightarrow>
   log_record list \<times> (py_exception + dmp_df option)" where
  "get_dmp dmatrix OLS finished betas formula sample_sheet keep_na =
     (if ''sample_name'' \<notin> set (sheet_columns sample_sheet)
      then ([Info_start_get_dmp, Error_no_sample_name_column], Inr None)
      else
        (let betas = (if \<not> keep_na then dropna (beta_rows betas) else beta_rows betas);
             sample_info = set_index ''sample_name'' sample_sheet
         in case dmatrix formula sample_info of
              Inl e \<Rightarrow> ([Info_start_get_dmp], Inl e)
            | Inr design_matrix \<Rightarrow>
                (let factor_names =
                       filter (\<lambda>f. \<not> contains_str ''intercept'' (lower f))
                         (dm_columns design_matrix);
                     column_names =
                       fold (\<lambda>factor names.
                               names @ [''t_value_'' @ factor, ''estimate_'' @ factor,
                                        ''std_err_'' @ factor])
                         factor_names [''p_value'']
                 in case fit_rows finished OLS design_matrix factor_names betas of
                      Inl e \<Rightarrow> ([Info_start_get_dmp], Inl e)
                    | Inr result_array \<Rightarrow>
                        (case DataFrame result_array (map fst betas) column_names of
                           Inl e \<Rightarrow> ([Info_start_get_dmp, Info_get_dmp_done], Inl e)
                         | Inr df \<Rightarrow>
                             ([Info_start_get_dmp, Info_get_dmp_done], Inr (Some df))))))"

section \<open>Instances of the parameters and example tables\<close>

text \<open>
  Modelled from the spec: \<^verbatim>\<open>remove_probe_suffix\<close> of \<^verbatim>\<open>illuminator.utils\<close> is not among the
  source files. The spec says that the probe ids of the annotation may carry a suffix that
  is stripped to match the ids of the beta matrix. This instance cuts an id at its last
  underscore (\<^verbatim>\<open>cg00000029_TC21\<close> becomes \<^verbatim>\<open>cg00000029\<close>) and leaves an id without
  underscore as it is. It is used in the closed examples only; the theorems hold for every
  function.
\<close>

definition remove_probe_suffix :: "string \<Rightarrow> string" where
  "remove_probe_suffix probe_id =
     (if CHR ''_'' \<in> set probe_id
      then rev (tl (dropWhile (\<lambda>c. c \<noteq> CHR ''_'') (rev probe_id)))
      else probe_id)"

text \<open>
  \<^verbatim>\<open>np.quantile(a, q)\<close> with its default linear interpolation, after NumPy's documentation:
  the level \<open>q\<close> must lie in \<open>[0, 1]\<close>, a NaN among the values gives NaN, and otherwise
  the result lies between the two order statistics around position \<open>(n - 1) * q\<close>. On an
  empty array this instance raises \<^verbatim>\<open>IndexError\<close>; no example below reaches that case. It
  is used in the closed examples only; the theorems hold for every function.
\<close>

definition np_quantile :: "float list \<Rightarrow> real \<Rightarrow> py_exception + float" where
  "np_quantile a q =
     (if q < 0 \<or> 1 < q then Inl ValueError
      else if a = [] then Inl IndexError
      else if list_ex (\<lambda>v. v = None) a then Inr None
      else
        (let s = sort (map the a);
             h = real (length s - 1) * q;
             lo = nat \<lfloor>h\<rfloor>;
             hi = min (lo + 1) (length s - 1)
         in Inr (Some (s ! lo + (h - real lo) * (s ! hi - s ! lo)))))"

text \<open>
  Five annotated probes on two chromosomes, \<^verbatim>\<open>cg5\<close> of zero width, and a beta matrix of
  two samples over the same probes, \<^verbatim>\<open>cg3\<close> with a missing value.
\<close>

definition example_ranges :: "genomic_range frame" where
  "example_ranges =
     [(''cg1'', \<lparr>Chromosome = ''chr1'', Start = 100, End = 200\<rparr>),
      (''cg2'', \<lparr>Chromosome = ''chr1'', Start = 300, End = 400\<rparr>),
      (''cg3'', \<lparr>Chromosome = ''chr1'', Start = 500, End = 600\<rparr>),
      (''cg4'', \<lparr>Chromosome = ''chr2'', Start = 50, End = 60\<rparr>),
      (''cg5'', \<lparr>Chromosome = ''chr2'', Start = 70, End = 70\<rparr>)]"

definition example_betas :: betas_df where
  "example_betas =
     \<lparr>beta_columns = [''s1'', ''s2''],
      beta_rows =
        [(''cg4'', [Some (1 / 2), Some (1 / 2)]),
         (''cg5'', [Some (1 / 2), Some (1 / 2)]),
         (''cg1'', [Some (1 / 10), Some (1 / 10)]),
         (''cg2'', [Some (1 / 10), Some (2 / 10)]),
         (''cg3'', [Some (9 / 10), None])]\<rparr>"

text \<open>The sorted table the segmentation of the example works on: \<^verbatim>\<open>cg1\<close>, \<^verbatim>\<open>cg2\<close>, \<^verbatim>\<open>cg4\<close>.\<close>

definition example_cpg_ranges :: "(genomic_range \<times> float list) frame" where
  "example_cpg_ranges = sort_ranges (join_probes remove_probe_suffix example_betas example_ranges)"

text \<open>A beta matrix with the probe \<^verbatim>\<open>cg9\<close>, which \<open>example_ranges\<close> does not annotate.\<close>

definition unannotated_betas :: betas_df where
  "unannotated_betas =
     \<lparr>beta_columns = [''s1'', ''s2''],
      beta_rows =
        [(''cg1'', [Some (1 / 10), Some (1 / 10)]),
         (''cg9'', [Some (1 / 2), Some (1 / 2)])]\<rparr>"

text \<open>An annotation whose only range has width zero.\<close>

definition zero_width_ranges :: "genomic_range frame" where
  "zero_width_ranges = [(''cg1'', \<lparr>Chromosome = ''chr1'', Start = 100, End = 100\<rparr>)]"

text \<open>
  An annotation whose probe ids carry a suffix, and a beta matrix over the same probes
  without it; \<^verbatim>\<open>cg2\<close> has a missing value.
\<close>

definition suffixed_ranges :: "genomic_range frame" where
  "suffixed_ranges =
     [(''cg1_TC21'', \<lparr>Chromosome = ''chr1'', Start = 100, End = 200\<rparr>),
      (''cg2_TC21'', \<lparr>Chromosome = ''chr1'', Start = 300, End = 400\<rparr>)]"

definition unsuffixed_betas :: betas_df where
  "unsuffixed_betas =
     \<lparr>beta_columns = [''s1''],
      beta_rows = [(''cg1'', [Some (1 / 2)]), (''cg2'', [None])]\<rparr>"

text \<open>A beta matrix none of whose probes is in \<open>example_ranges\<close>, with or without suffix.\<close>

definition disjoint_betas :: betas_df where
  "disjoint_betas =
     \<lparr>beta_columns = [''s1'', ''s2''],
      beta_rows =
        [(''cg7'', [Some (1 / 10), Some (1 / 10)]),
         (''cg8'', [Some (1 / 2), Some (1 / 2)])]\<rparr>"

text \<open>Two probes of \<open>example_ranges\<close> with the same beta values in both samples.\<close>

definition flat_betas :: betas_df where
  "flat_betas =
     \<lparr>beta_columns = [''s1'', ''s2''],
      beta_rows =
        [(''cg1'', [Some (1 / 2), Some (1 / 2)]),
         (''cg2'', [Some (1 / 2), Some (1 / 2)])]\<rparr>"

text \<open>
  A sample sheet for the two samples of the example matrices, with the age of each sample,
  and the same sheet with the column of the sample names under another name.
\<close>

datatype cell = Str string | Num real

definition example_sheet :: "cell sheet_df" where
  "example_sheet =
     \<lparr>sheet_index = [Num 0, Num 1],
      sheet_columns = [''sample_name'', ''age''],
      sheet_rows = [[Str ''s1'', Num 20], [Str ''s2'', Num 40]]\<rparr>"

definition unnamed_sheet :: "cell sheet_df" where
  "unnamed_sheet =
     \<lparr>sheet_index = [Num 0, Num 1],
      sheet_columns = [''name'', ''age''],
      sheet_rows = [[Str ''s1'', Num 20], [Str ''s2'', Num 40]]\<rparr>"

text \<open>
  An instance of \<^verbatim>\<open>dmatrix\<close> for the closed examples: it knows the formula \<^verbatim>\<open>~age\<close>, for which
  it returns the intercept column and the column of the ages, and raises on anything else.
\<close>

definition example_dmatrix :: "string \<Rightarrow> cell sheet_df \<Rightarrow> py_exception + design_matrix" where
  "example_dmatrix formula sample_info =
     (if formula = ''~age'' \<and> ''age'' \<in> set (sheet_columns sample_info)
      then
        (let i = length (takeWhile (\<lambda>c. c \<noteq> ''age'') (sheet_columns sample_info))
         in Inr \<lparr>dm_columns = [''Intercept'', ''age''],
                 dm_rows = map (\<lambda>r. [1, case r ! i of Num x \<Rightarrow> x | Str _ \<Rightarrow> 0])
                             (sheet_rows sample_info)\<rparr>)
      else Inl PatsyError)"

definition example_design_matrix :: design_matrix where
  "example_design_matrix = \<lparr>dm_columns = [''Intercept'', ''age''], dm_rows = [[1, 20], [1, 40]]\<rparr>"

text \<open>
  An instance of \<open>OLS\<close> for the closed examples: the least-squares line of the beta values
  on the second column of the design matrix, the samples with a missing beta value dropped.
  It raises \<^verbatim>\<open>ValueError\<close> when the number of values is not the number of rows of the design
  matrix, and when no sample is left. It gives the estimates; the p-value, the t values and
  the standard errors, which need the F and t distributions, are NaN.
\<close>

definition example_OLS :: "float list \<Rightarrow> design_matrix \<Rightarrow> py_exception + fitted" where
  "example_OLS betas_values design_matrix =
     (let obs = [(r ! 1, y). (r, Some y) \<leftarrow> zip (dm_rows design_matrix) betas_values];
          n = real (length obs);
          mx = sum_list (map fst obs) / n;
          my = sum_list (map snd obs) / n;
          sxx = sum_list (map (\<lambda>(x, y). (x - mx) * (x - mx)) obs);
          sxy = sum_list (map (\<lambda>(x, y). (x - mx) * (y - my)) obs);
          slope = (if sxx = 0 then None else Some (sxy / sxx));
          coef = (\<lambda>term. if term = ''age'' then slope
                        else if term = ''Intercept'' then map_option (\<lambda>b. my - b * mx) slope
                        else None)
      in if length betas_values \<noteq> length (dm_rows design_matrix) \<or> obs = []
         then Inl ValueError
         else Inr \<lparr>f_pvalue = None, tvalues = (\<lambda>term. None), params = coef,
                    bse = (\<lambda>term. None)\<rparr>)"

text \<open>A beta matrix whose probe \<^verbatim>\<open>cg2\<close> has no value in any sample.\<close>

definition all_nan_betas :: betas_df where
  "all_nan_betas =
     \<lparr>beta_columns = [''s1'', ''s2''],
      beta_rows =
        [(''cg1'', [Some (1 / 10), Some (2 / 10)]),
         (''cg2'', [None, None])]\<rparr>"

section \<open>Segment numbering\<close>

lemma cumsum_from_length: "length (cumsum_from acc bs) = length bs"
  by (induction bs arbitrary: acc) (simp_all add: Let_def)

lemma cumsum_from_nth:
  "i < length bs \<Longrightarrow>
     cumsum_from acc bs ! i = acc + length (filter (\<lambda>b. b) (take (Suc i) bs))"
proof (induction bs arbitrary: acc i)
  case Nil
  then show ?case by simp
next
  case (Cons b bs)
  show ?case
  proof (cases i)
    case 0
    then show ?thesis by (simp add: Let_def)
  next
    case (Suc j)
    with Cons.prems have "j < length bs" by simp
    from Cons.IH [OF this] Suc show ?thesis by (simp add: Let_def)
  qed
qed

lemma length_shift_next: "length (shift_next xs) = length xs"
  by (cases xs) (simp_all add: shift_next_def)

lemma length_last_probe_in_chromosome:
  "length (last_probe_in_chromosome rs) = length rs"
  by (simp add: last_probe_in_chromosome_def Let_def length_shift_next)

lemma length_beta_euclidian_dist: "length (beta_euclidian_dist rs) = length rs"
  by (simp add: beta_euclidian_dist_def Let_def set_last_def length_shift_next)

lemma length_change_points: "length (change_points c rs) = length rs"
  by (simp add: change_points_def length_last_probe_in_chromosome length_beta_euclidian_dist)

lemma length_shift_fill: "length (shift_fill v xs) = length xs"
  by (cases xs) (simp_all add: shift_fill_def)

lemma take_Suc_shift_fill:
  "i < length xs \<Longrightarrow> take (Suc i) (shift_fill v xs) = v # take i xs"
proof -
  assume i: "i < length xs"
  then have "min i (length xs - 1) = i"
    by arith
  then have "take i (butlast xs) = take i xs"
    by (simp add: butlast_conv_take)
  with i show ?thesis
    by (auto simp: shift_fill_def)
qed

lemma cumsum_shift_fill_nth:
  "i < length cps \<Longrightarrow>
     cumsum (shift_fill True cps) ! i = Suc (length (filter (\<lambda>b. b) (take i cps)))"
  by (simp add: cumsum_def cumsum_from_nth length_shift_fill take_Suc_shift_fill)

lemma map_fst_segment_id: "map fst (segment_id c rs) = map fst rs"
  by (simp add: segment_id_def cumsum_def cumsum_from_length length_shift_fill
      length_change_points)

lemma length_segment_id: "length (segment_id c rs) = length rs"
  using map_fst_segment_id [of c rs] by (metis length_map)

section \<open>Joins, selection by label\<close>

lemma matches_Nil_iff: "matches k r = [] \<longleftrightarrow> k \<notin> fst ` set r"
  by (induction r) (auto simp: matches_def)

lemma filter_key_Nil: "k \<notin> fst ` set r \<Longrightarrow> filter (\<lambda>p. fst p = k) r = []"
  by (auto simp: filter_empty_conv)

lemma matches_distinct:
  "distinct (map fst r) \<Longrightarrow> (k, v) \<in> set r \<Longrightarrow> matches k r = [v]"
  by (induction r) (auto simp: matches_def filter_key_Nil)

lemma join_left_Nil_iff: "join_left na l r = [] \<longleftrightarrow> l = []"
  by (cases l) (auto simp: join_left_def split: list.splits)

lemma join_inner_Nil_left: "join_inner [] r = []"
  by (simp add: join_inner_def)

lemma join_probes_Nil_iff:
  "join_probes rps betas df = [] \<longleftrightarrow> filter (\<lambda>r. End (snd r) > Start (snd r)) df = []"
proof (cases "filter (\<lambda>r. End (snd r) > Start (snd r)) df = []")
  case True
  then show ?thesis
    by (simp add: join_probes_def Let_def join_left_Nil_iff index_map_def join_inner_def)
next
  case False
  then show ?thesis
    by (simp add: join_probes_def Let_def join_left_Nil_iff index_map_def)
qed

lemma loc_KeyError_iff:
  "loc df ks = Inl e \<longleftrightarrow> e = KeyError \<and> \<not> set ks \<subseteq> fst ` set df"
proof (induction ks)
  case Nil
  then show ?case by simp
next
  case (Cons k ks)
  have "filter (\<lambda>r. fst r = k) df = [] \<longleftrightarrow> k \<notin> fst ` set df"
    by (auto simp: filter_empty_conv)
  with Cons show ?case
    by (auto split: list.splits sum.splits)
qed

lemma loc_Inr_iff:
  "(\<exists>rows. loc df ks = Inr rows) \<longleftrightarrow> set ks \<subseteq> fst ` set df"
  using loc_KeyError_iff [of df ks] by (cases "loc df ks") auto

lemma loc_distinct:
  "distinct (map fst df) \<Longrightarrow> loc df ks = Inr rows \<Longrightarrow> map fst rows = ks"
proof (induction ks arbitrary: rows)
  case Nil
  then show ?case by simp
next
  case (Cons k ks)
  from Cons.prems(2) obtain r rs rest where
    f: "filter (\<lambda>r. fst r = k) df = r # rs" and l: "loc df ks = Inr rest" and rows: "rows = (r # rs) @ rest"
    by (auto split: list.splits sum.splits)
  from Cons.prems(1) have "length (filter (\<lambda>r. fst r = k) df) \<le> 1"
    by (induction df) (auto simp: filter_key_Nil)
  with f have "rs = []" by simp
  moreover from f have "r \<in> set (filter (\<lambda>r. fst r = k) df)"
    by simp
  then have "fst r = k"
    by simp
  ultimately show ?case using \<open>fst r = k\<close> Cons.IH [OF Cons.prems(1) l] rows by simp
qed


lemma merge_segments_KeyError:
  "\<not> set ks \<subseteq> fst ` set df \<Longrightarrow> merge_segments df ks sid = ([], Inl KeyError)"
proof -
  assume "\<not> set ks \<subseteq> fst ` set df"
  then have "loc df ks = Inl KeyError"
    by (simp add: loc_KeyError_iff)
  then show ?thesis
    by (simp add: merge_segments_def)
qed

lemma determine_cutoff_given:
  "determine_cutoff quantile (Some c) spl lp ds = ([], Inr (Some c))"
  by (simp add: determine_cutoff_def)

lemma matches_map_of:
  "distinct (map fst r) \<Longrightarrow>
     matches k r = (case map_of r k of None \<Rightarrow> [] | Some v \<Rightarrow> [v])"
proof (cases "map_of r k")
  case None
  then have "k \<notin> fst ` set r"
    by (simp add: map_of_eq_None_iff)
  with None show ?thesis
    by (simp add: matches_Nil_iff)
next
  case (Some v)
  assume "distinct (map fst r)"
  moreover from Some have "(k, v) \<in> set r"
    by (rule map_of_SomeD)
  ultimately show ?thesis
    using Some by (simp add: matches_distinct)
qed

lemma join_left_distinct:
  assumes "distinct (map fst r)"
  shows "join_left na l r =
         map (\<lambda>(k, a). (k, a, case map_of r k of None \<Rightarrow> na | Some v \<Rightarrow> v)) l"
  by (induction l) (auto simp: join_left_def matches_map_of [OF assms] split: option.splits)

lemma join_inner_distinct:
  assumes "distinct (map fst r)"
  shows "map fst (join_inner l r) = filter (\<lambda>k. k \<in> fst ` set r) (map fst l)"
proof (induction l)
  case Nil
  then show ?case by (simp add: join_inner_def)
next
  case (Cons x l)
  obtain k a where x: "x = (k, a)" by (cases x)
  have "map fst (map (\<lambda>b. (k, (a, b))) (matches k r)) = (if k \<in> fst ` set r then [k] else [])"
  proof (cases "map_of r k")
    case None
    then have n: "k \<notin> fst ` set r"
      by (simp add: map_of_eq_None_iff)
    then have "matches k r = []"
      by (simp add: matches_Nil_iff)
    with n show ?thesis
      by simp
  next
    case (Some v)
    then have "k \<in> fst ` set r"
      by (metis map_of_eq_None_iff option.distinct(1))
    with Some show ?thesis
      by (simp add: matches_map_of [OF assms])
  qed
  with Cons x show ?case
    by (simp add: join_inner_def)
qed

section \<open>Sorting and the new segment ids of the re-merge\<close>

lemma map_fst_assign_na_segments: "map fst (assign_na_segments n rs) = map fst rs"
  by (induction n rs rule: assign_na_segments.induct) simp_all

lemma length_assign_na_segments: "length (assign_na_segments n rs) = length rs"
  by (induction n rs rule: assign_na_segments.induct) simp_all

lemma assign_na_segments_nth:
  "i < length rs \<Longrightarrow>
     assign_na_segments n rs ! i =
       (fst (rs ! i), fst (snd (rs ! i)),
        case snd (snd (rs ! i)) of
          Some s \<Rightarrow> s
        | None \<Rightarrow> n + length (filter (\<lambda>r. snd (snd r) = None) (take i rs)))"
proof (induction n rs arbitrary: i rule: assign_na_segments.induct)
  case (1 first)
  then show ?case by simp
next
  case (2 first k c rs)
  then show ?case by (cases i) (auto split: option.splits)
next
  case (3 first k c s rs)
  then show ?case by (cases i) (auto split: option.splits)
qed

lemma filter_take_strict_mono:
  assumes "i < j" "j \<le> length rs" "P (rs ! i)"
  shows "length (filter P (take i rs)) < length (filter P (take j rs))"
proof -
  from assms(1,2) have "i < length (take j rs)"
    by simp
  then have "take j rs = take i (take j rs) @ take j rs ! i # drop (Suc i) (take j rs)"
    by (rule id_take_nth_drop)
  also have "take i (take j rs) = take i rs"
    using assms(1) by (simp add: min_def)
  also have "take j rs ! i = rs ! i"
    using assms(1) by simp
  finally have "length (filter P (take j rs)) =
      length (filter P (take i rs @ rs ! i # drop (Suc i) (take j rs)))"
    by (rule arg_cong)
  then show ?thesis
    using assms(3) by simp
qed

lemma mset_sort_ranges: "mset (sort_ranges df) = mset df"
  by (simp add: sort_ranges_def)

lemma mset_sort_values_segment_id: "mset (sort_values_segment_id df) = mset df"
  by (simp add: sort_values_segment_id_def)


lemma loc_subset: "loc df ks = Inr rows \<Longrightarrow> set rows \<subseteq> set df"
proof (induction ks arbitrary: rows)
  case Nil
  then show ?case by simp
next
  case (Cons k ks)
  from Cons.prems obtain r rs rest where
    f: "filter (\<lambda>r. fst r = k) df = r # rs" and l: "loc df ks = Inr rest"
    and rows: "rows = (r # rs) @ rest"
    by (auto split: list.splits sum.splits)
  have "set (r # rs) \<subseteq> set df"
    using f by (metis filter_is_subset)
  with Cons.IH [OF l] rows show ?case by auto
qed

lemma map_of_Some_series:
  "map_of (map (\<lambda>(k, s). (k, Some s)) sid) k = map_option Some (map_of sid k)"
  by (induction sid) auto

lemma map_fst_Some_series: "map fst (map (\<lambda>(k, s). (k, Some s)) sid) = map fst sid"
  by (induction sid) auto

lemma join_left_series:
  assumes "distinct (map fst sid)"
  shows "join_left None selected (map (\<lambda>(k, s). (k, Some s)) sid) =
         map (\<lambda>(k, a). (k, a, map_of sid k)) selected"
proof -
  have "distinct (map fst (map (\<lambda>(k, s). (k, Some s)) sid))"
    using assms by (simp only: map_fst_Some_series)
  then have "join_left None selected (map (\<lambda>(k, s). (k, Some s)) sid) =
      map (\<lambda>(k, a). (k, a, case map_of (map (\<lambda>(k, s). (k, Some s)) sid) k of
                                None \<Rightarrow> None | Some v \<Rightarrow> v)) selected"
    by (rule join_left_distinct)
  also have "\<dots> = map (\<lambda>(k, a). (k, a, map_of sid k)) selected"
    by (auto simp: map_of_Some_series split: option.splits)
  finally show ?thesis .
qed

lemma assign_na_segments_rows:
  assumes "r \<in> set (assign_na_segments n rs)"
  obtains i where "i < length rs" and "r = assign_na_segments n rs ! i"
  using assms by (metis in_set_conv_nth length_assign_na_segments)

lemma merge_segments_rows:
  assumes ann: "distinct (map fst df)"
    and ks: "distinct ks"
    and sub: "set ks \<subseteq> fst ` set df"
    and sid: "distinct (map fst sid)"
    and ne: "sid \<noteq> []"
  shows "\<exists>segments. snd (merge_segments df ks sid) = Inr segments
       \<and> distinct (map fst segments) \<and> set (map fst segments) = set ks
       \<and> (\<forall>r \<in> set segments.
            (fst r, fst (snd r)) \<in> set df
          \<and> (if fst r \<in> fst ` set sid
             then (fst r, snd (snd r)) \<in> set sid
             else (\<forall>p \<in> set sid. snd p < snd (snd r))
                \<and> (\<forall>r' \<in> set segments. snd (snd r') = snd (snd r) \<longrightarrow> r' = r)))"
proof -
  from sub obtain selected where sel: "loc df ks = Inr selected"
    using loc_Inr_iff by blast
  have sel_keys: "map fst selected = ks"
    using ann sel by (rule loc_distinct)
  have sel_sub: "set selected \<subseteq> set df"
    using sel by (rule loc_subset)
  let ?joined = "map (\<lambda>(k, a). (k, a, map_of sid k)) selected"
  let ?sorted = "sort_values_segment_id ?joined"
  let ?m = "Max (set (map snd sid))"
  let ?out = "assign_na_segments (?m + 1) ?sorted"
  let ?na = "\<lambda>r :: string \<times> genomic_range \<times> nat option. snd (snd r) = None"
  have res: "snd (merge_segments df ks sid) = Inr ?out"
    by (simp add: merge_segments_def sel Let_def join_left_series [OF sid])
  have ms: "mset ?sorted = mset ?joined"
    by (rule mset_sort_values_segment_id)
  then have set_sorted: "set ?sorted = set ?joined"
    by (rule mset_eq_setD)
  have "mset (map fst ?sorted) = mset (map fst ?joined)"
    using arg_cong [OF ms, of "image_mset fst"] by (simp only: mset_map)
  also have "map fst ?joined = ks"
    using sel_keys by (simp add: comp_def case_prod_unfold)
  finally have keys: "mset (map fst ?out) = mset ks"
    by (simp add: map_fst_assign_na_segments)
  have d: "distinct (map fst ?out)"
    by (rule iffD2 [OF mset_eq_imp_distinct_iff [OF keys] ks])
  have s: "set (map fst ?out) = set ks"
    using keys by (rule mset_eq_setD)
  have max: "snd p \<le> ?m" if "p \<in> set sid" for p
    using that by simp
  have row: "(fst (?sorted ! i), fst (snd (?sorted ! i))) \<in> set df
      \<and> snd (snd (?sorted ! i)) = map_of sid (fst (?sorted ! i))"
    if "i < length ?sorted" for i
  proof -
    from that have "?sorted ! i \<in> set ?joined"
      using set_sorted nth_mem by blast
    then obtain k a where "(k, a) \<in> set selected" and "?sorted ! i = (k, a, map_of sid k)"
      by auto
    with sel_sub show ?thesis by auto
  qed
  have out: "?out ! i =
      (fst (?sorted ! i), fst (snd (?sorted ! i)),
       case snd (snd (?sorted ! i)) of
         Some s \<Rightarrow> s
       | None \<Rightarrow> ?m + 1 + length (filter ?na (take i ?sorted)))"
    if "i < length ?sorted" for i
    using that by (rule assign_na_segments_nth)
  have rows: "(fst r, fst (snd r)) \<in> set df
      \<and> (if fst r \<in> fst ` set sid
         then (fst r, snd (snd r)) \<in> set sid
         else (\<forall>p \<in> set sid. snd p < snd (snd r))
            \<and> (\<forall>r' \<in> set ?out. snd (snd r') = snd (snd r) \<longrightarrow> r' = r))"
    if "r \<in> set ?out" for r
  proof -
    from that obtain i where i: "i < length ?sorted" and r: "r = ?out ! i"
      by (rule assign_na_segments_rows)
    note ri = row [OF i] out [OF i]
    show ?thesis
    proof (cases "map_of sid (fst r)")
      case (Some v)
      then have "(fst r, v) \<in> set sid"
        by (rule map_of_SomeD)
      moreover have "snd (snd r) = v"
        using Some r ri by simp
      ultimately show ?thesis
        using r ri by (auto simp: rev_image_eqI)
    next
      case None
      then have notin: "fst r \<notin> fst ` set sid"
        by (simp add: map_of_eq_None_iff)
      have nai: "?na (?sorted ! i)"
        using None r ri by simp
      have idr: "snd (snd r) = ?m + 1 + length (filter ?na (take i ?sorted))"
        using None r ri by simp
      have above: "\<forall>p \<in> set sid. snd p < snd (snd r)"
        using max idr by fastforce
      have single: "r' = r" if r': "r' \<in> set ?out" and same: "snd (snd r') = snd (snd r)" for r'
      proof -
        from r' obtain j where j: "j < length ?sorted" and rj: "r' = ?out ! j"
          by (rule assign_na_segments_rows)
        note rj' = row [OF j] out [OF j]
        show ?thesis
        proof (cases "snd (snd (?sorted ! j))")
          case (Some v)
          with rj' have "map_of sid (fst (?sorted ! j)) = Some v"
            by simp
          then have "(fst (?sorted ! j), v) \<in> set sid"
            by (rule map_of_SomeD)
          then have "v \<le> ?m"
            using max by fastforce
          moreover have "snd (snd r') = v"
            using Some rj rj' by simp
          ultimately show ?thesis
            using same idr by simp
        next
          case None
          then have idj: "snd (snd r') = ?m + 1 + length (filter ?na (take j ?sorted))"
            using rj rj' by simp
          have "\<not> i < j"
          proof
            assume "i < j"
            then have "length (filter ?na (take i ?sorted)) < length (filter ?na (take j ?sorted))"
              using j nai by (intro filter_take_strict_mono) simp_all
            with idj idr same show False by simp
          qed
          moreover have "\<not> j < i"
          proof
            assume "j < i"
            then have "length (filter ?na (take j ?sorted)) < length (filter ?na (take i ?sorted))"
              using i None by (intro filter_take_strict_mono) simp_all
            with idj idr same show False by simp
          qed
          ultimately have "i = j" by simp
          with r rj show ?thesis by simp
        qed
      qed
      from notin above single r ri show ?thesis
        by auto
    qed
  qed
  from res d s rows show ?thesis
    by blast
qed



section \<open>Column names, substrings and the worker pool\<close>

lemma fold_append_concat:
  "fold (\<lambda>x acc. acc @ g x) xs init = init @ concat (map g xs)"
  by (induction xs arbitrary: init) simp_all

lemma get_model_parameters_returns_iff:
  "(\<exists>v. get_model_parameters OLS row dm fn = Inr v) \<longleftrightarrow> (\<exists>fit. OLS row dm = Inr fit)"
  by (auto simp: get_model_parameters_def split: sum.splits)

lemma length_get_model_parameters:
  assumes "get_model_parameters OLS row dm fn = Inr v"
  shows "length v = 1 + 3 * length fn"
proof -
  have "length (fold (\<lambda>x acc. acc @ g x) xs init) = length init + 3 * length xs"
    if "\<And>x. length (g x) = 3" for g :: "string \<Rightarrow> float list" and xs init
    using that by (induction xs arbitrary: init) simp_all
  then show ?thesis
    using assms by (auto simp: get_model_parameters_def split: sum.splits)
qed

lemma starts_with_iff: "starts_with sub s \<longleftrightarrow> (\<exists>ss. s = sub @ ss)"
  by (induction sub s rule: starts_with.induct) auto

lemma contains_str_iff: "contains_str sub s \<longleftrightarrow> (\<exists>ps ss. s = ps @ sub @ ss)"
proof (induction s)
  case Nil
  then show ?case by auto
next
  case (Cons c s)
  have "(\<exists>ps ss. c # s = ps @ sub @ ss) \<longleftrightarrow>
        (\<exists>ss. c # s = sub @ ss) \<or> (\<exists>ps ss. s = ps @ sub @ ss)"
  proof
    assume "\<exists>ps ss. c # s = ps @ sub @ ss"
    then obtain ps ss where e: "c # s = ps @ sub @ ss" by blast
    show "(\<exists>ss. c # s = sub @ ss) \<or> (\<exists>ps ss. s = ps @ sub @ ss)"
    proof (cases ps)
      case Nil
      with e show ?thesis by auto
    next
      case (Cons p ps')
      with e have "s = ps' @ sub @ ss" by simp
      then show ?thesis by blast
    qed
  next
    assume "(\<exists>ss. c # s = sub @ ss) \<or> (\<exists>ps ss. s = ps @ sub @ ss)"
    then show "\<exists>ps ss. c # s = ps @ sub @ ss"
    proof
      assume "\<exists>ss. c # s = sub @ ss"
      then obtain ss where "c # s = [] @ sub @ ss" by auto
      then show ?thesis by blast
    next
      assume "\<exists>ps ss. s = ps @ sub @ ss"
      then obtain ps ss where "c # s = (c # ps) @ sub @ ss" by auto
      then show ?thesis by blast
    qed
  qed
  with Cons show ?case
    by (simp add: starts_with_iff)
qed

lemma insort_key_fst_map:
  "insort_key fst (i, g i) (map (\<lambda>j. (j, g j)) js) = map (\<lambda>j. (j, g j)) (insort i js)"
  by (induction js) simp_all

lemma sort_key_fst_map:
  "sort_key fst (map (\<lambda>j. (j, g j)) js) = map (\<lambda>j. (j, g j)) (sort js)"
  by (induction js) (simp_all add: insort_key_fst_map)

lemma returns_iff_not_isl: "(\<exists>r. x = Inr r) \<longleftrightarrow> \<not> isl x"
  by (cases x) simp_all

lemma list_comprehension_returns:
  "\<forall>x \<in> set xs. \<exists>r. f x = Inr r \<Longrightarrow>
     list_comprehension f xs = Inr (map (\<lambda>x. projr (f x)) xs)"
  by (induction xs) auto

lemma list_comprehension_raises:
  "\<not> (\<forall>x \<in> set xs. \<exists>r. f x = Inr r) \<Longrightarrow> \<exists>e. list_comprehension f xs = Inl e"
proof (induction xs)
  case Nil
  then show ?case by simp
next
  case (Cons x xs)
  show ?case
  proof (cases "f x")
    case (Inl e)
    then show ?thesis by simp
  next
    case (Inr r)
    with Cons.prems have "\<not> (\<forall>x \<in> set xs. \<exists>r. f x = Inr r)"
      by simp
    then obtain e where "list_comprehension f xs = Inl e"
      using Cons.IH by blast
    with Inr show ?thesis by simp
  qed
qed

lemma run_tasks_returns:
  "\<forall>i \<in> set js. \<exists>r. f (xs ! i) = Inr r \<Longrightarrow>
     run_tasks f xs js = Inr (map (\<lambda>i. (i, projr (f (xs ! i)))) js)"
  by (induction js) auto

lemma run_tasks_raises:
  "\<not> (\<forall>i \<in> set js. \<exists>r. f (xs ! i) = Inr r) \<Longrightarrow> \<exists>e. run_tasks f xs js = Inl e"
proof (induction js)
  case Nil
  then show ?case by simp
next
  case (Cons j js)
  show ?case
  proof (cases "f (xs ! j)")
    case (Inl e)
    then show ?thesis by simp
  next
    case (Inr r)
    with Cons.prems have "\<not> (\<forall>i \<in> set js. \<exists>r. f (xs ! i) = Inr r)"
      by simp
    then obtain e where "run_tasks f xs js = Inl e"
      using Cons.IH by blast
    with Inr show ?thesis by simp
  qed
qed

lemma Parallel_returns:
  assumes "mset finished = mset [0..<length xs]"
    and "\<forall>x \<in> set xs. \<exists>r. f x = Inr r"
  shows "Parallel finished f xs = Inr (map (\<lambda>x. projr (f x)) xs)"
proof -
  have s: "set finished = {0..<length xs}"
    using mset_eq_setD [OF assms(1)] by simp
  have "\<forall>i \<in> set finished. \<exists>r. f (xs ! i) = Inr r"
    using s assms(2) by simp
  then have r: "run_tasks f xs finished = Inr (map (\<lambda>i. (i, projr (f (xs ! i)))) finished)"
    by (rule run_tasks_returns)
  have "sort finished = [0..<length xs]"
    using assms(1) by (intro properties_for_sort) simp_all
  then have "map snd (sort_key fst (map (\<lambda>i. (i, projr (f (xs ! i)))) finished)) =
      map (\<lambda>i. projr (f (xs ! i))) [0..<length xs]"
    by (simp add: sort_key_fst_map comp_def)
  also have "\<dots> = map (\<lambda>x. projr (f x)) (map (\<lambda>i. xs ! i) [0..<length xs])"
    by (simp add: comp_def)
  also have "\<dots> = map (\<lambda>x. projr (f x)) xs"
    by (simp only: map_nth)
  finally show ?thesis
    by (simp add: Parallel_def r)
qed

lemma Parallel_raises:
  assumes "mset finished = mset [0..<length xs]"
    and "\<not> (\<forall>x \<in> set xs. \<exists>r. f x = Inr r)"
  shows "\<exists>e. Parallel finished f xs = Inl e"
proof -
  have s: "set finished = {0..<length xs}"
    using mset_eq_setD [OF assms(1)] by simp
  from assms(2) obtain x where "x \<in> set xs" and x: "\<not> (\<exists>r. f x = Inr r)"
    by blast
  then obtain i where "i < length xs" and "xs ! i = x"
    by (auto simp: in_set_conv_nth)
  with s x have "\<not> (\<forall>i \<in> set finished. \<exists>r. f (xs ! i) = Inr r)"
    by auto
  then obtain e where "run_tasks f xs finished = Inl e"
    using run_tasks_raises by blast
  then show ?thesis
    by (simp add: Parallel_def)
qed

lemma fit_rows_returns:
  assumes "mset finished = mset [0..<length betas]"
    and "\<forall>r \<in> set betas. \<exists>v. get_model_parameters OLS (snd r) dm fn = Inr v"
  shows "fit_rows finished OLS dm fn betas =
         Inr (map (\<lambda>r. projr (get_model_parameters OLS (snd r) dm fn)) betas)"
proof -
  let ?f = "\<lambda>row. get_model_parameters OLS row dm fn"
  from assms(1) have m: "mset finished = mset [0..<length (map snd betas)]"
    by simp
  from assms(2) have a: "\<forall>x \<in> set (map snd betas). \<exists>v. ?f x = Inr v"
    by simp
  have "Parallel finished ?f (map snd betas) = Inr (map (\<lambda>x. projr (?f x)) (map snd betas))"
    using m a by (rule Parallel_returns)
  moreover have "list_comprehension ?f (map snd betas) =
      Inr (map (\<lambda>x. projr (?f x)) (map snd betas))"
    using a by (rule list_comprehension_returns)
  ultimately show ?thesis
    by (simp add: fit_rows_def fit_parallel_def fit_sequential_def comp_def)
qed

lemma fit_rows_raises:
  assumes "mset finished = mset [0..<length betas]"
    and "\<not> (\<forall>r \<in> set betas. \<exists>v. get_model_parameters OLS (snd r) dm fn = Inr v)"
  shows "\<exists>e. fit_rows finished OLS dm fn betas = Inl e"
proof -
  let ?f = "\<lambda>row. get_model_parameters OLS row dm fn"
  from assms(1) have m: "mset finished = mset [0..<length (map snd betas)]"
    by simp
  from assms(2) have a: "\<not> (\<forall>x \<in> set (map snd betas). \<exists>v. ?f x = Inr v)"
    by simp
  have "\<exists>e. Parallel finished ?f (map snd betas) = Inl e"
    using m a by (rule Parallel_raises)
  moreover have "\<exists>e. list_comprehension ?f (map snd betas) = Inl e"
    using a by (rule list_comprehension_raises)
  ultimately show ?thesis
    by (auto simp: fit_rows_def fit_parallel_def fit_sequential_def)
qed

section \<open>C1: segment ids are a running count of change points\<close>

text \<open>
  C1, as amended. In \<^verbatim>\<open>get_dmr\<close> the segment id of the probe at position \<open>i\<close> of the sorted
  table is one more than the number of change points among the probes at positions
  \<open>0, ..., i - 1\<close>: the first probe has segment id 1 (\<^verbatim>\<open>shift(fill_value=True)\<close> puts a
  true value in front of the change points before they are summed), and the id of the next
  probe is one higher exactly when the probe is a change point.
\<close>

theorem segment_id_running_count:
  assumes "i < length cpg_ranges"
  shows "fst (segment_id cutoff cpg_ranges ! i) = fst (cpg_ranges ! i)
       \<and> snd (segment_id cutoff cpg_ranges ! i) =
           1 + length (filter (\<lambda>b. b) (take i (change_points cutoff cpg_ranges)))
       \<and> snd (segment_id cutoff cpg_ranges ! 0) = 1
       \<and> (if Suc i < length cpg_ranges
          then snd (segment_id cutoff cpg_ranges ! Suc i) =
                 snd (segment_id cutoff cpg_ranges ! i) +
                 (if change_points cutoff cpg_ranges ! i then 1 else 0)
          else True)"
proof -
  let ?cps = "change_points cutoff cpg_ranges"
  let ?ids = "cumsum (shift_fill True ?cps)"
  have len: "length ?cps = length cpg_ranges"
    by (rule length_change_points)
  have len_ids: "length ?ids = length cpg_ranges"
    by (simp add: cumsum_def cumsum_from_length length_shift_fill len)
  have nth: "snd (segment_id cutoff cpg_ranges ! j) = ?ids ! j
      \<and> fst (segment_id cutoff cpg_ranges ! j) = fst (cpg_ranges ! j)"
    if "j < length cpg_ranges" for j
    using that len_ids by (simp add: segment_id_def)
  have count: "?ids ! j = Suc (length (filter (\<lambda>b. b) (take j ?cps)))"
    if "j < length cpg_ranges" for j
    using that len by (simp add: cumsum_shift_fill_nth)
  have zero: "0 < length cpg_ranges"
    using assms by (cases cpg_ranges) simp_all
  have step: "?ids ! Suc i = ?ids ! i + (if ?cps ! i then 1 else 0)"
    if "Suc i < length cpg_ranges"
  proof -
    from that len have "take (Suc i) ?cps = take i ?cps @ [?cps ! i]"
      by (simp add: take_Suc_conv_app_nth)
    with count [of "Suc i"] count [of i] that show ?thesis
      by simp
  qed
  show ?thesis
    using nth [OF assms] nth [OF zero] count [OF assms] count [OF zero] step nth [of "Suc i"]
    by simp
qed

theorem segment_id_running_count_witness:
  "(1 :: nat) < length example_cpg_ranges
   \<and> fst (segment_id (Some (1 / 10)) example_cpg_ranges ! 1) = ''cg2''
   \<and> snd (segment_id (Some (1 / 10)) example_cpg_ranges ! 1) = 1
   \<and> snd (segment_id (Some (1 / 10)) example_cpg_ranges ! Suc 1) = 2
   \<and> change_points (Some (1 / 10)) example_cpg_ranges = [False, True, True]"
proof -
  have h: "(1 :: nat) < length example_cpg_ranges"
    by code_simp
  have cps: "change_points (Some (1 / 10)) example_cpg_ranges = [False, True, True]"
    by code_simp
  have k: "fst (example_cpg_ranges ! 1) = ''cg2''"
    by code_simp
  have l: "length example_cpg_ranges = 3"
    by code_simp
  from segment_id_running_count [OF h, of "Some (1 / 10)"] h cps k l show ?thesis
    by simp
qed

text \<open>
  The claim as stated gives the first probe the segment id 0 and probe \<open>i\<close> the bare
  number of earlier change points; on the example the first probe, which no change point
  precedes, has segment id 1.
\<close>

theorem segment_id_first_probe_counterexample:
  "\<not> (snd (segment_id (Some (1 / 10)) example_cpg_ranges ! 0) = 0)
   \<and> \<not> (snd (segment_id (Some (1 / 10)) example_cpg_ranges ! 0) =
          length (filter (\<lambda>b. b) (take 0 (change_points (Some (1 / 10)) example_cpg_ranges))))
   \<and> snd (get_dmr remove_probe_suffix np_quantile example_betas example_ranges
            (Some (1 / 10)) (1 / 2)) =
       Inr [(''cg1'', \<lparr>Chromosome = ''chr1'', Start = 100, End = 200\<rparr>, 1),
            (''cg2'', \<lparr>Chromosome = ''chr1'', Start = 300, End = 400\<rparr>, 1),
            (''cg4'', \<lparr>Chromosome = ''chr2'', Start = 50, End = 60\<rparr>, 2),
            (''cg5'', \<lparr>Chromosome = ''chr2'', Start = 70, End = 70\<rparr>, 3),
            (''cg3'', \<lparr>Chromosome = ''chr1'', Start = 500, End = 600\<rparr>, 4)]"
  by code_simp

section \<open>C2: the retry of the join\<close>

text \<open>
  C2 holds for the first join and fails for the retry. The first join is
  \<^verbatim>\<open>join(betas_no_na, how='inner')\<close>; the retry is \<^verbatim>\<open>join(betas_no_na)\<close>, which pandas reads
  as a left join. When the first join matches something, every row that enters the
  segmentation has a complete beta row.
\<close>

lemma join_probes_direct_complete:
  assumes "join_inner (filter (\<lambda>r. End (snd r) > Start (snd r)) probe_coords_df)
             (dropna (beta_rows betas)) \<noteq> []"
    and "r \<in> set (join_probes rps betas probe_coords_df)"
  shows "list_all (\<lambda>v. v \<noteq> None) (snd (snd r))"
proof -
  from assms have "r \<in> set (join_inner (filter (\<lambda>r. End (snd r) > Start (snd r)) probe_coords_df)
      (dropna (beta_rows betas)))"
    by (simp add: join_probes_def Let_def)
  then obtain k a b where "r = (k, a, b)" and "b \<in> set (matches k (dropna (beta_rows betas)))"
    by (auto simp: join_inner_def)
  then show ?thesis
    by (auto simp: matches_def dropna_def)
qed

text \<open>
  C2 at the failing input. The annotation ids carry a suffix, so the first join is empty
  and the retry runs. It keeps \<^verbatim>\<open>cg2\<close>, whose beta value is missing, in the table that is
  sorted and segmented; the inner join of the claim would keep \<^verbatim>\<open>cg1\<close> only.
\<close>

theorem join_probes_retry_keeps_missing_betas:
  "join_probes remove_probe_suffix unsuffixed_betas suffixed_ranges =
     [(''cg1'', \<lparr>Chromosome = ''chr1'', Start = 100, End = 200\<rparr>, [Some (1 / 2)]),
      (''cg2'', \<lparr>Chromosome = ''chr1'', Start = 300, End = 400\<rparr>, [None])]
   \<and> join_inner (index_map remove_probe_suffix suffixed_ranges)
        (dropna (beta_rows unsuffixed_betas)) =
     [(''cg1'', \<lparr>Chromosome = ''chr1'', Start = 100, End = 200\<rparr>, [Some (1 / 2)])]"
  by code_simp

section \<open>C3: every probe of the beta matrix is in the table of segments\<close>

text \<open>
  C3, as amended. Take a beta matrix and an annotation whose probe ids are distinct, every
  probe of the beta matrix being annotated, and let the first join match at least one
  probe, so that the table \<open>cpg_ranges\<close> that is segmented holds exactly the probes with a
  range of non-zero width and a complete beta row. If the cut-off stage yields a cut-off
  (it is given, or \<^verbatim>\<open>np.quantile\<close> returns one), then \<^verbatim>\<open>get_dmr\<close> returns a table in which
  every probe id of the beta matrix appears exactly once and no other id appears, each with
  its coordinates. A probe of \<open>cpg_ranges\<close> has the segment id the segmentation gave it.
  Every other probe has an id strictly greater than every id of the segmentation, and no
  other row of the table has this id.
\<close>

theorem get_dmr_every_probe_once:
  assumes ann: "distinct (map fst probe_coords_df)"
    and ids: "distinct (map fst (beta_rows betas))"
    and sub: "set (map fst (beta_rows betas)) \<subseteq> fst ` set probe_coords_df"
    and direct: "join_inner (filter (\<lambda>r. End (snd r) > Start (snd r)) probe_coords_df)
                   (dropna (beta_rows betas)) \<noteq> []"
    and cpg: "cpg_ranges = sort_ranges (join_probes rps betas probe_coords_df)"
    and cut: "snd (determine_cutoff quantile dist_cutoff seg_per_locus
                (last_probe_in_chromosome cpg_ranges) (beta_euclidian_dist cpg_ranges)) =
              Inr cutoff"
  shows "\<exists>segments.
           snd (get_dmr rps quantile betas probe_coords_df dist_cutoff seg_per_locus) = Inr segments
         \<and> distinct (map fst segments)
         \<and> set (map fst segments) = set (map fst (beta_rows betas))
         \<and> (\<forall>r \<in> set segments.
              (fst r, fst (snd r)) \<in> set probe_coords_df
            \<and> (if fst r \<in> fst ` set cpg_ranges
               then (fst r, snd (snd r)) \<in> set (segment_id cutoff cpg_ranges)
               else (\<forall>p \<in> set (segment_id cutoff cpg_ranges). snd p < snd (snd r))
                  \<and> (\<forall>r' \<in> set segments. snd (snd r') = snd (snd r) \<longrightarrow> r' = r)))
         \<and> fst ` set cpg_ranges =
             {k. \<exists>c v. (k, c) \<in> set probe_coords_df \<and> Start c < End c
                      \<and> (k, v) \<in> set (beta_rows betas) \<and> list_all (\<lambda>x. x \<noteq> None) v}"
proof -
  let ?ne = "filter (\<lambda>r. End (snd r) > Start (snd r)) probe_coords_df"
  let ?bn = "dropna (beta_rows betas)"
  let ?ks = "map fst (beta_rows betas)"
  let ?sid = "segment_id cutoff cpg_ranges"
  have jp: "join_probes rps betas probe_coords_df = join_inner ?ne ?bn"
    using direct by (simp add: join_probes_def Let_def)
  have dbn: "distinct (map fst ?bn)"
    using ids by (simp add: dropna_def distinct_map_filter)
  have dne: "distinct (map fst ?ne)"
    using ann by (simp add: distinct_map_filter)
  have keys: "map fst (join_inner ?ne ?bn) = filter (\<lambda>k. k \<in> fst ` set ?bn) (map fst ?ne)"
    using dbn by (rule join_inner_distinct)
  have ms: "mset (map fst cpg_ranges) = mset (map fst (join_inner ?ne ?bn))"
    using arg_cong [OF mset_sort_ranges [of "join_inner ?ne ?bn"], of "image_mset fst"]
    by (simp only: cpg jp mset_map)
  have dj: "distinct (map fst (join_inner ?ne ?bn))"
    using dne by (simp only: keys distinct_filter)
  have dc: "distinct (map fst cpg_ranges)"
    by (rule iffD2 [OF mset_eq_imp_distinct_iff [OF ms] dj])
  have sidk: "map fst ?sid = map fst cpg_ranges"
    by (rule map_fst_segment_id)
  have dsid: "distinct (map fst ?sid)"
    using dc by (simp only: sidk)
  have "cpg_ranges \<noteq> []"
    using direct ms by auto
  then have nsid: "?sid \<noteq> []"
    using length_segment_id [of cutoff cpg_ranges] by auto
  have fsid: "fst ` set ?sid = fst ` set cpg_ranges"
    using arg_cong [OF sidk, of set] by simp
  obtain lg where "determine_cutoff quantile dist_cutoff seg_per_locus
      (last_probe_in_chromosome cpg_ranges) (beta_euclidian_dist cpg_ranges) = (lg, Inr cutoff)"
    using cut by (metis prod.collapse)
  then have run: "snd (get_dmr rps quantile betas probe_coords_df dist_cutoff seg_per_locus) =
      snd (merge_segments probe_coords_df ?ks ?sid)"
    using \<open>cpg_ranges \<noteq> []\<close> cpg
    by (auto simp: get_dmr_def Let_def sort_ranges_def split: prod.splits)
  have members: "fst ` set cpg_ranges =
      {k. \<exists>c v. (k, c) \<in> set probe_coords_df \<and> Start c < End c
               \<and> (k, v) \<in> set (beta_rows betas) \<and> list_all (\<lambda>x. x \<noteq> None) v}"
  proof -
    have "fst ` set cpg_ranges = set (map fst (join_inner ?ne ?bn))"
      using mset_eq_setD [OF ms] by simp
    also have "\<dots> = {k \<in> fst ` set ?ne. k \<in> fst ` set ?bn}"
      by (simp only: keys set_filter set_map)
    also have "\<dots> = {k. \<exists>c v. (k, c) \<in> set probe_coords_df \<and> Start c < End c
               \<and> (k, v) \<in> set (beta_rows betas) \<and> list_all (\<lambda>x. x \<noteq> None) v}"
      by (force simp: dropna_def)
    finally show ?thesis .
  qed
  from merge_segments_rows [OF ann ids sub dsid nsid] run fsid members show ?thesis
    by simp
qed

theorem get_dmr_every_probe_once_witness:
  "distinct (map fst example_ranges)
   \<and> distinct (map fst (beta_rows example_betas))
   \<and> set (map fst (beta_rows example_betas)) \<subseteq> fst ` set example_ranges
   \<and> join_inner (filter (\<lambda>r. End (snd r) > Start (snd r)) example_ranges)
        (dropna (beta_rows example_betas)) \<noteq> []
   \<and> snd (determine_cutoff np_quantile None (1 / 2)
        (last_probe_in_chromosome example_cpg_ranges) (beta_euclidian_dist example_cpg_ranges)) =
       Inr (Some (1 / 100))
   \<and> (\<exists>segments.
         snd (get_dmr remove_probe_suffix np_quantile example_betas example_ranges None (1 / 2)) =
           Inr segments
       \<and> distinct (map fst segments)
       \<and> set (map fst segments) = set (map fst (beta_rows example_betas)))"
proof -
  have h1: "distinct (map fst example_ranges)"
    by code_simp
  have h2: "distinct (map fst (beta_rows example_betas))"
    by code_simp
  have h3: "set (map fst (beta_rows example_betas)) \<subseteq> fst ` set example_ranges"
    by code_simp
  have h4: "join_inner (filter (\<lambda>r. End (snd r) > Start (snd r)) example_ranges)
      (dropna (beta_rows example_betas)) \<noteq> []"
    by code_simp
  have h5: "example_cpg_ranges =
      sort_ranges (join_probes remove_probe_suffix example_betas example_ranges)"
    by (rule example_cpg_ranges_def)
  have h6: "snd (determine_cutoff np_quantile None (1 / 2)
      (last_probe_in_chromosome example_cpg_ranges) (beta_euclidian_dist example_cpg_ranges)) =
      Inr (Some (1 / 100))"
    by code_simp
  from get_dmr_every_probe_once [OF h1 h2 h3 h4 h5 h6] obtain segments where
    "snd (get_dmr remove_probe_suffix np_quantile example_betas example_ranges None (1 / 2)) =
       Inr segments"
    "distinct (map fst segments)"
    "set (map fst segments) = set (map fst (beta_rows example_betas))"
    by blast
  with h1 h2 h3 h4 h6 show ?thesis
    by blast
qed

text \<open>
  The claim as stated covers every beta matrix. On a beta matrix with a probe that the
  annotation does not have, \<^verbatim>\<open>get_dmr\<close> raises at the re-merge and returns no table at
  all, so the probes of the beta matrix appear nowhere.
\<close>

theorem get_dmr_every_probe_once_counterexample:
  "get_dmr remove_probe_suffix np_quantile unannotated_betas example_ranges
     (Some (1 / 100)) (1 / 2) =
     ([Info_start_get_dmr, Debug_cutoff (Some (1 / 100))], Inl KeyError)"
  by code_simp

section \<open>C4: the sequential and the parallel path\<close>

text \<open>
  C4. Whatever the order in which the workers finish (\<open>finished\<close> lists every task once),
  the parallel path returns a result exactly when the sequential path returns it on the
  same rows, design matrix and factors, and the result is the same row for row: the result
  at position \<open>i\<close> is what \<^verbatim>\<open>get_model_parameters\<close> returns for row \<open>i\<close> and the shared
  design matrix, on either path. One path raises exactly when the other does, namely when
  the fit of some row raises; when no fit raises the two paths are equal. So the rows fitted
  by \<^verbatim>\<open>get_dmp\<close> are those of the sequential path on either side of the threshold of 10000
  probes.
\<close>

theorem sequential_parallel_same_results:
  assumes "mset finished = mset [0..<length betas]"
  shows "(\<forall>results.
            fit_parallel finished OLS design_matrix factor_names (map snd betas) = Inr results
            \<longleftrightarrow> fit_sequential OLS design_matrix factor_names (map snd betas) = Inr results)
       \<and> (\<forall>results.
            fit_rows finished OLS design_matrix factor_names betas = Inr results
            \<longleftrightarrow> fit_sequential OLS design_matrix factor_names (map snd betas) = Inr results)
       \<and> ((\<exists>e. fit_parallel finished OLS design_matrix factor_names (map snd betas) = Inl e)
            \<longleftrightarrow> (\<exists>e. fit_sequential OLS design_matrix factor_names (map snd betas) = Inl e))
       \<and> ((\<forall>r \<in> set betas. \<exists>fit. OLS (snd r) design_matrix = Inr fit) \<longrightarrow>
            fit_parallel finished OLS design_matrix factor_names (map snd betas) =
              fit_sequential OLS design_matrix factor_names (map snd betas)
          \<and> fit_rows finished OLS design_matrix factor_names betas =
              fit_sequential OLS design_matrix factor_names (map snd betas)
          \<and> (\<exists>results.
                fit_sequential OLS design_matrix factor_names (map snd betas) = Inr results))
       \<and> (\<forall>results.
            fit_sequential OLS design_matrix factor_names (map snd betas) = Inr results \<longrightarrow>
              length results = length betas
            \<and> (\<forall>i < length betas.
                  get_model_parameters OLS (snd (betas ! i)) design_matrix factor_names =
                    Inr (results ! i)))"
proof -
  let ?f = "\<lambda>row. get_model_parameters OLS row design_matrix factor_names"
  let ?rows = "map snd betas"
  let ?all = "\<forall>r \<in> set betas. \<exists>v. ?f (snd r) = Inr v"
  have fits: "?all \<longleftrightarrow> (\<forall>r \<in> set betas. \<exists>fit. OLS (snd r) design_matrix = Inr fit)"
    by (simp only: get_model_parameters_returns_iff)
  from assms have m: "mset finished = mset [0..<length ?rows]"
    by simp
  show ?thesis
  proof (cases ?all)
    case True
    let ?results = "map (\<lambda>r. projr (?f (snd r))) betas"
    from True have a: "\<forall>x \<in> set ?rows. \<exists>v. ?f x = Inr v"
      by simp
    have seq: "fit_sequential OLS design_matrix factor_names ?rows = Inr ?results"
      using list_comprehension_returns [OF a] by (simp add: fit_sequential_def comp_def)
    have par: "fit_parallel finished OLS design_matrix factor_names ?rows = Inr ?results"
      using Parallel_returns [OF m a] by (simp add: fit_parallel_def comp_def)
    have rows: "fit_rows finished OLS design_matrix factor_names betas = Inr ?results"
      using assms True by (rule fit_rows_returns)
    have each: "?f (snd (betas ! i)) = Inr (?results ! i)" if "i < length betas" for i
    proof -
      from that True obtain v where "?f (snd (betas ! i)) = Inr v"
        using nth_mem by blast
      with that show ?thesis by simp
    qed
    from seq par rows each show ?thesis
      by (simp add: fits [symmetric] True)
  next
    case False
    then have a: "\<not> (\<forall>x \<in> set ?rows. \<exists>v. ?f x = Inr v)"
      by simp
    obtain e where seq: "fit_sequential OLS design_matrix factor_names ?rows = Inl e"
      using list_comprehension_raises [OF a] by (auto simp: fit_sequential_def)
    obtain e' where par: "fit_parallel finished OLS design_matrix factor_names ?rows = Inl e'"
      using Parallel_raises [OF m a] by (auto simp: fit_parallel_def)
    obtain e'' where rows: "fit_rows finished OLS design_matrix factor_names betas = Inl e''"
      using fit_rows_raises [OF assms False] by blast
    from seq par rows False show ?thesis
      by (simp add: fits [symmetric])
  qed
qed

theorem sequential_parallel_same_results_witness:
  "mset [4, 2, 0, 1, 3] = mset [0..<length (beta_rows example_betas)]
   \<and> fit_parallel [4, 2, 0, 1, 3] example_OLS example_design_matrix [''age'']
        (map snd (beta_rows example_betas)) =
      fit_sequential example_OLS example_design_matrix [''age'']
        (map snd (beta_rows example_betas))
   \<and> fit_parallel [4, 2, 0, 1, 3] example_OLS example_design_matrix [''age'']
        (map snd (beta_rows example_betas)) =
      Inr [[None, None, Some 0, None], [None, None, Some 0, None], [None, None, Some 0, None],
           [None, None, Some (1 / 200), None], [None, None, None, None]]
   \<and> mset [1, 0] = mset [0..<length (beta_rows all_nan_betas)]
   \<and> fit_sequential example_OLS example_design_matrix [''age'']
        (map snd (beta_rows all_nan_betas)) = Inl ValueError
   \<and> (\<exists>e. fit_parallel [1, 0] example_OLS example_design_matrix [''age'']
             (map snd (beta_rows all_nan_betas)) = Inl e)"
proof -
  have h: "mset [4, 2, 0, 1, 3] = mset [0..<length (beta_rows example_betas)]"
    by code_simp
  have v: "fit_sequential example_OLS example_design_matrix [''age'']
        (map snd (beta_rows example_betas)) =
      Inr [[None, None, Some 0, None], [None, None, Some 0, None], [None, None, Some 0, None],
           [None, None, Some (1 / 200), None], [None, None, None, None]]"
    by code_simp
  have g: "mset [1, 0] = mset [0..<length (beta_rows all_nan_betas)]"
    by code_simp
  have w: "fit_sequential example_OLS example_design_matrix [''age'']
        (map snd (beta_rows all_nan_betas)) = Inl ValueError"
    by code_simp
  from sequential_parallel_same_results [OF h, of example_OLS example_design_matrix "[''age'']"]
  have "fit_parallel [4, 2, 0, 1, 3] example_OLS example_design_matrix [''age'']
        (map snd (beta_rows example_betas)) =
      Inr [[None, None, Some 0, None], [None, None, Some 0, None], [None, None, Some 0, None],
           [None, None, Some (1 / 200), None], [None, None, None, None]]"
    using v by blast
  moreover
  from sequential_parallel_same_results [OF g, of example_OLS example_design_matrix "[''age'']"]
  have "\<exists>e. fit_parallel [1, 0] example_OLS example_design_matrix [''age'']
        (map snd (beta_rows all_nan_betas)) = Inl e"
    using w by blast
  ultimately show ?thesis
    using h v g w by simp
qed

section \<open>C5: invalid configuration values\<close>

text \<open>
  C5, as amended. When no cut-off is given and \<^verbatim>\<open>seg_per_locus\<close> is outside the open
  interval \<open>(0, 1)\<close>, the run is the run with \<^verbatim>\<open>seg_per_locus = 0.5\<close>, with one more log
  record, the warning, after the first (none when the join is empty and the run returns
  before the check). A given cut-off \<open>c \<le> 0\<close> is not replaced: the warning is logged, the
  cut-off in use is \<open>c\<close>, and the run goes on to the re-merge with the segment ids computed
  from \<open>c\<close>. Neither condition raises.
\<close>

theorem get_dmr_configuration_warnings:
  "(\<not> (0 < seg_per_locus \<and> seg_per_locus < 1) \<longrightarrow>
      snd (get_dmr rps quantile betas df None seg_per_locus) =
        snd (get_dmr rps quantile betas df None (1 / 2))
    \<and> fst (get_dmr rps quantile betas df None seg_per_locus) =
        (if join_probes rps betas df = [] then [Info_start_get_dmr, Error_no_match]
         else Info_start_get_dmr # Warning_invalid_seg_per_locus seg_per_locus #
              tl (fst (get_dmr rps quantile betas df None (1 / 2)))))
   \<and> (c \<le> 0 \<and> join_probes rps betas df \<noteq> [] \<longrightarrow>
      get_dmr rps quantile betas df (Some c) seg_per_locus =
        (let m = merge_segments df (map fst (beta_rows betas))
                   (segment_id (Some c) (sort_ranges (join_probes rps betas df)))
         in ([Info_start_get_dmr, Warning_cutoff_should_be_positive, Debug_cutoff (Some c)] @ fst m,
             snd m)))"
proof -
  have a: "snd (get_dmr rps quantile betas df None seg_per_locus) =
        snd (get_dmr rps quantile betas df None (1 / 2))
    \<and> fst (get_dmr rps quantile betas df None seg_per_locus) =
        (if join_probes rps betas df = [] then [Info_start_get_dmr, Error_no_match]
         else Info_start_get_dmr # Warning_invalid_seg_per_locus seg_per_locus #
              tl (fst (get_dmr rps quantile betas df None (1 / 2))))"
    if "\<not> (0 < seg_per_locus \<and> seg_per_locus < 1)"
    using that
    by (auto simp: get_dmr_def determine_cutoff_def Let_def split: sum.splits prod.splits)
  have b: "get_dmr rps quantile betas df (Some c) seg_per_locus =
        (let m = merge_segments df (map fst (beta_rows betas))
                   (segment_id (Some c) (sort_ranges (join_probes rps betas df)))
         in ([Info_start_get_dmr, Warning_cutoff_should_be_positive, Debug_cutoff (Some c)] @ fst m,
             snd m))"
    if "c \<le> 0" "join_probes rps betas df \<noteq> []"
    using that
    by (simp add: get_dmr_def determine_cutoff_def float_le_def Let_def split: prod.splits)
  from a b show ?thesis by blast
qed

theorem get_dmr_configuration_warnings_witness:
  "\<not> (0 < (2 :: real) \<and> (2 :: real) < 1)
   \<and> (- 1 :: real) \<le> 0
   \<and> join_probes remove_probe_suffix example_betas example_ranges \<noteq> []
   \<and> snd (get_dmr remove_probe_suffix np_quantile example_betas example_ranges None 2) =
       snd (get_dmr remove_probe_suffix np_quantile example_betas example_ranges None (1 / 2))
   \<and> fst (get_dmr remove_probe_suffix np_quantile example_betas example_ranges None 2) =
       [Info_start_get_dmr, Warning_invalid_seg_per_locus 2, Debug_segments_per_locus (1 / 2),
        Debug_cutoff (Some (1 / 100)), Info_number_of_segments 2, Info_adding_na_segments 2]
   \<and> fst (get_dmr remove_probe_suffix np_quantile example_betas example_ranges (Some (- 1)) 2) =
       [Info_start_get_dmr, Warning_cutoff_should_be_positive, Debug_cutoff (Some (- 1)),
        Info_number_of_segments 3, Info_adding_na_segments 2]"
proof -
  have h1: "\<not> (0 < (2 :: real) \<and> (2 :: real) < 1)"
    by simp
  have h2: "(- 1 :: real) \<le> 0"
    by simp
  have h3: "join_probes remove_probe_suffix example_betas example_ranges \<noteq> []"
    by code_simp
  have l: "fst (get_dmr remove_probe_suffix np_quantile example_betas example_ranges None (1 / 2)) =
       [Info_start_get_dmr, Debug_segments_per_locus (1 / 2),
        Debug_cutoff (Some (1 / 100)), Info_number_of_segments 2, Info_adding_na_segments 2]"
    by code_simp
  have m: "fst (merge_segments example_ranges (map fst (beta_rows example_betas))
       (segment_id (Some (- 1))
         (sort_ranges (join_probes remove_probe_suffix example_betas example_ranges)))) =
       [Info_number_of_segments 3, Info_adding_na_segments 2]"
    by code_simp
  from get_dmr_configuration_warnings
    [of 2 remove_probe_suffix np_quantile example_betas example_ranges "- 1"]
    h1 h2 h3 l m
  show ?thesis
    by (simp add: Let_def)
qed

text \<open>
  The claim as stated has a non-positive cut-off replaced by a safe default. With the
  cut-off \<open>-1\<close> the run logs the warning and keeps \<open>-1\<close>: the two probes, whose distance
  is 0, are split into two segments, which no positive cut-off does (with 0.5 they share
  segment 1).
\<close>

theorem get_dmr_nonpositive_cutoff_counterexample:
  "get_dmr remove_probe_suffix np_quantile flat_betas example_ranges (Some (- 1)) (1 / 2) =
     ([Info_start_get_dmr, Warning_cutoff_should_be_positive, Debug_cutoff (Some (- 1)),
       Info_number_of_segments 2],
      Inr [(''cg1'', \<lparr>Chromosome = ''chr1'', Start = 100, End = 200\<rparr>, 1),
           (''cg2'', \<lparr>Chromosome = ''chr1'', Start = 300, End = 400\<rparr>, 2)])
   \<and> get_dmr remove_probe_suffix np_quantile flat_betas example_ranges (Some (1 / 2)) (1 / 2) =
     ([Info_start_get_dmr, Debug_cutoff (Some (1 / 2)), Info_number_of_segments 1],
      Inr [(''cg1'', \<lparr>Chromosome = ''chr1'', Start = 100, End = 200\<rparr>, 1),
           (''cg2'', \<lparr>Chromosome = ''chr1'', Start = 300, End = 400\<rparr>, 1)])"
  by code_simp

section \<open>C6: no overlap between annotation and beta matrix\<close>

text \<open>
  The check for an empty join comes after the retry, and the retry is a left join: it is
  empty only when the annotation has no range of non-zero width (\<open>join_probes_Nil_iff\<close>).

  C6 at the failing input. No probe of \<open>disjoint_betas\<close> is in \<open>example_ranges\<close>, before
  or after the suffix is removed, and yet \<^verbatim>\<open>get_dmr\<close> does not log the error nor return
  the empty table: it goes on to the re-merge, where \<^verbatim>\<open>.loc\<close> raises \<^verbatim>\<open>KeyError\<close>.
\<close>

theorem get_dmr_no_overlap_raises:
  "filter (\<lambda>k. k \<in> set (map fst example_ranges)) (map fst (beta_rows disjoint_betas)) = []
   \<and> filter (\<lambda>k. k \<in> set (map remove_probe_suffix (map fst example_ranges)))
        (map fst (beta_rows disjoint_betas)) = []
   \<and> get_dmr remove_probe_suffix np_quantile disjoint_betas example_ranges
        (Some (1 / 10)) (1 / 2) =
       ([Info_start_get_dmr, Debug_cutoff (Some (1 / 10))], Inl KeyError)
   \<and> get_dmr remove_probe_suffix np_quantile disjoint_betas example_ranges None (1 / 2) =
       ([Info_start_get_dmr, Debug_segments_per_locus (1 / 2),
         Warning_cutoff_should_be_positive, Debug_cutoff (Some 0)], Inl KeyError)"
  by code_simp

section \<open>C7: a sample sheet without the column \<^verbatim>\<open>sample_name\<close>\<close>

text \<open>
  C7. When the sample sheet has no column \<^verbatim>\<open>sample_name\<close>, \<^verbatim>\<open>get_dmp\<close> logs the error and
  returns \<^verbatim>\<open>None\<close>; it raises nothing. The outcome is the same for every beta matrix,
  formula, \<^verbatim>\<open>dmatrix\<close>, \<open>OLS\<close> and worker order: no design matrix is built and no row is
  fitted.
\<close>

theorem get_dmp_missing_sample_name:
  assumes "''sample_name'' \<notin> set (sheet_columns sample_sheet)"
  shows "get_dmp dmatrix OLS finished betas formula sample_sheet keep_na =
           ([Info_start_get_dmp, Error_no_sample_name_column], Inr None)
       \<and> get_dmp dmatrix OLS finished betas formula sample_sheet keep_na =
           get_dmp dmatrix' OLS' finished' betas' formula' sample_sheet keep_na'"
  using assms by (simp add: get_dmp_def)

theorem get_dmp_missing_sample_name_witness:
  "''sample_name'' \<notin> set (sheet_columns unnamed_sheet)
   \<and> get_dmp example_dmatrix example_OLS [4, 2, 0, 1, 3] example_betas ''~age'' unnamed_sheet True =
       ([Info_start_get_dmp, Error_no_sample_name_column], Inr None)"
proof -
  have h: "''sample_name'' \<notin> set (sheet_columns unnamed_sheet)"
    by code_simp
  from get_dmp_missing_sample_name [OF h] h show ?thesis
    by blast
qed

section \<open>C8: rows and columns of the table of \<^verbatim>\<open>get_dmp\<close>\<close>

text \<open>
  C8, as amended. Let the sample sheet have the column \<^verbatim>\<open>sample_name\<close>, let \<^verbatim>\<open>dmatrix\<close> return
  a design matrix, and let the workers finish in any order. The rows that are fitted are
  the rows of the beta matrix when \<^verbatim>\<open>keep_na\<close> is true, and the rows of the beta matrix
  without missing value when \<^verbatim>\<open>keep_na\<close> is false. If the fit of every one of them returns a
  model, \<^verbatim>\<open>get_dmp\<close> returns a table whose rows are the fitted rows, in the order of the
  beta matrix. Its columns are \<^verbatim>\<open>p_value\<close> and then, for each column of the design matrix
  whose lower-cased name does not contain \<^verbatim>\<open>intercept\<close>, in the order of the design matrix,
  \<^verbatim>\<open>t_value_\<close>, \<^verbatim>\<open>estimate_\<close> and \<^verbatim>\<open>std_err_\<close> followed by the name. Every row of values has one
  value per column, the values \<^verbatim>\<open>get_model_parameters\<close> returns for the row. If the fit of
  some row raises, \<^verbatim>\<open>get_dmp\<close> raises and returns no table.
\<close>

theorem get_dmp_rows_and_columns:
  assumes name: "''sample_name'' \<in> set (sheet_columns sample_sheet)"
    and dm: "dmatrix formula (set_index ''sample_name'' sample_sheet) = Inr design_matrix"
    and rows: "fitted_rows = (if keep_na then beta_rows betas else dropna (beta_rows betas))"
    and order: "mset finished = mset [0..<length fitted_rows]"
    and factors: "factor_names =
           filter (\<lambda>f. \<not> (\<exists>ps ss. lower f = ps @ ''intercept'' @ ss)) (dm_columns design_matrix)"
  shows "((\<forall>r \<in> set fitted_rows. \<exists>fit. OLS (snd r) design_matrix = Inr fit) \<longrightarrow>
          (\<exists>df. get_dmp dmatrix OLS finished betas formula sample_sheet keep_na =
                  ([Info_start_get_dmp, Info_get_dmp_done], Inr (Some df))
             \<and> dmp_index df = map fst fitted_rows
             \<and> dmp_columns df =
                 ''p_value'' #
                 concat (map (\<lambda>factor. [''t_value_'' @ factor, ''estimate_'' @ factor,
                                          ''std_err_'' @ factor]) factor_names)
             \<and> map Inr (dmp_values df) =
                 map (\<lambda>r. get_model_parameters OLS (snd r) design_matrix factor_names) fitted_rows
             \<and> list_all (\<lambda>row. length row = length (dmp_columns df)) (dmp_values df)))
       \<and> (\<not> (\<forall>r \<in> set fitted_rows. \<exists>fit. OLS (snd r) design_matrix = Inr fit) \<longrightarrow>
          (\<exists>e. get_dmp dmatrix OLS finished betas formula sample_sheet keep_na =
                  ([Info_start_get_dmp], Inl e)))"
proof -
  let ?F = "filter (\<lambda>f. \<not> contains_str ''intercept'' (lower f)) (dm_columns design_matrix)"
  let ?cols = "''p_value'' #
      concat (map (\<lambda>factor. [''t_value_'' @ factor, ''estimate_'' @ factor,
                               ''std_err_'' @ factor]) ?F)"
  let ?f = "\<lambda>r. get_model_parameters OLS (snd r) design_matrix ?F"
  let ?vals = "map (\<lambda>r. projr (?f r)) fitted_rows"
  let ?all = "\<forall>r \<in> set fitted_rows. \<exists>v. ?f r = Inr v"
  have fn: "factor_names = ?F"
    by (simp only: factors contains_str_iff)
  have fits: "?all \<longleftrightarrow> (\<forall>r \<in> set fitted_rows. \<exists>fit. OLS (snd r) design_matrix = Inr fit)"
    by (simp only: get_model_parameters_returns_iff)
  have b: "(if \<not> keep_na then dropna (beta_rows betas) else beta_rows betas) = fitted_rows"
    using rows by simp
  have cols: "fold (\<lambda>factor names.
        names @ [''t_value_'' @ factor, ''estimate_'' @ factor, ''std_err_'' @ factor])
      ?F [''p_value''] = ?cols"
    by (simp add: fold_append_concat)
  have "length (''p_value'' #
      concat (map (\<lambda>factor. [''t_value_'' @ factor, ''estimate_'' @ factor,
                               ''std_err_'' @ factor]) fs)) = 1 + 3 * length fs" for fs
    by (induction fs) simp_all
  then have lc: "length ?cols = 1 + 3 * length ?F" .
  have returned: "\<exists>df. get_dmp dmatrix OLS finished betas formula sample_sheet keep_na =
                  ([Info_start_get_dmp, Info_get_dmp_done], Inr (Some df))
             \<and> dmp_index df = map fst fitted_rows
             \<and> dmp_columns df = ?cols
             \<and> map Inr (dmp_values df) = map ?f fitted_rows
             \<and> list_all (\<lambda>row. length row = length (dmp_columns df)) (dmp_values df)"
    if all: ?all
  proof -
    have vals: "fit_rows finished OLS design_matrix ?F fitted_rows = Inr ?vals"
      using order all by (rule fit_rows_returns)
    have each: "?f r = Inr (projr (?f r))" if "r \<in> set fitted_rows" for r
      using that all by auto
    have shape: "list_all (\<lambda>row. length row = length ?cols) ?vals"
      using each by (auto simp only: lc list_all_iff set_map dest: length_get_model_parameters)
    then have df: "DataFrame ?vals (map fst fitted_rows) ?cols =
        Inr \<lparr>dmp_index = map fst fitted_rows, dmp_columns = ?cols, dmp_values = ?vals\<rparr>"
      by (simp add: DataFrame_def)
    have run: "get_dmp dmatrix OLS finished betas formula sample_sheet keep_na =
        ([Info_start_get_dmp, Info_get_dmp_done],
         Inr (Some \<lparr>dmp_index = map fst fitted_rows, dmp_columns = ?cols,
                     dmp_values = ?vals\<rparr>))"
      using name
      by (simp only: get_dmp_def Let_def b dm cols vals df sum.case) simp
    have "map Inr ?vals = map ?f fitted_rows"
      using each by simp
    with run shape show ?thesis
      by simp
  qed
  have raised: "\<exists>e. get_dmp dmatrix OLS finished betas formula sample_sheet keep_na =
                  ([Info_start_get_dmp], Inl e)"
    if nall: "\<not> ?all"
  proof -
    obtain e where "fit_rows finished OLS design_matrix ?F fitted_rows = Inl e"
      using fit_rows_raises [OF order nall] by blast
    then have "get_dmp dmatrix OLS finished betas formula sample_sheet keep_na =
        ([Info_start_get_dmp], Inl e)"
      using name
      by (simp only: get_dmp_def Let_def b dm cols sum.case) simp
    then show ?thesis by blast
  qed
  from returned raised show ?thesis
    unfolding fn fits [symmetric] by blast
qed

theorem get_dmp_rows_and_columns_witness:
  "''sample_name'' \<in> set (sheet_columns example_sheet)
   \<and> example_dmatrix ''~age'' (set_index ''sample_name'' example_sheet) =
       Inr example_design_matrix
   \<and> mset [4, 2, 0, 1, 3] = mset [0..<length (beta_rows example_betas)]
   \<and> [''age''] =
       filter (\<lambda>f. \<not> (\<exists>ps ss. lower f = ps @ ''intercept'' @ ss))
         (dm_columns example_design_matrix)
   \<and> list_all (\<lambda>r. \<not> isl (example_OLS (snd r) example_design_matrix)) (beta_rows example_betas)
   \<and> (\<exists>df. get_dmp example_dmatrix example_OLS [4, 2, 0, 1, 3] example_betas ''~age''
               example_sheet True =
             ([Info_start_get_dmp, Info_get_dmp_done], Inr (Some df))
          \<and> dmp_index df = [''cg4'', ''cg5'', ''cg1'', ''cg2'', ''cg3'']
          \<and> dmp_columns df = [''p_value'', ''t_value_age'', ''estimate_age'', ''std_err_age''])
   \<and> mset [1, 0] = mset [0..<length (beta_rows all_nan_betas)]
   \<and> \<not> list_all (\<lambda>r. \<not> isl (example_OLS (snd r) example_design_matrix))
         (beta_rows all_nan_betas)
   \<and> (\<exists>e. get_dmp example_dmatrix example_OLS [1, 0] all_nan_betas ''~age'' example_sheet True =
             ([Info_start_get_dmp], Inl e))"
proof -
  have isl: "(\<forall>r \<in> set rs. \<exists>fit. example_OLS (snd r) example_design_matrix = Inr fit) \<longleftrightarrow>
      list_all (\<lambda>r. \<not> isl (example_OLS (snd r) example_design_matrix)) rs"
    for rs :: "float list frame"
    by (simp only: list_all_iff returns_iff_not_isl)
  have h1: "''sample_name'' \<in> set (sheet_columns example_sheet)"
    by code_simp
  have h2: "example_dmatrix ''~age'' (set_index ''sample_name'' example_sheet) =
      Inr example_design_matrix"
    by code_simp
  have h3: "beta_rows example_betas =
      (if True then beta_rows example_betas else dropna (beta_rows example_betas))"
    by simp
  have h4: "mset [4, 2, 0, 1, 3] = mset [0..<length (beta_rows example_betas)]"
    by code_simp
  have "[''age''] =
      filter (\<lambda>f. \<not> contains_str ''intercept'' (lower f)) (dm_columns example_design_matrix)"
    by code_simp
  then have h5: "[''age''] =
      filter (\<lambda>f. \<not> (\<exists>ps ss. lower f = ps @ ''intercept'' @ ss))
        (dm_columns example_design_matrix)"
    by (simp only: contains_str_iff)
  have h6: "list_all (\<lambda>r. \<not> isl (example_OLS (snd r) example_design_matrix))
      (beta_rows example_betas)"
    by code_simp
  have i: "map fst (beta_rows example_betas) = [''cg4'', ''cg5'', ''cg1'', ''cg2'', ''cg3'']"
    by code_simp
  have g3: "beta_rows all_nan_betas =
      (if True then beta_rows all_nan_betas else dropna (beta_rows all_nan_betas))"
    by simp
  have g4: "mset [1, 0] = mset [0..<length (beta_rows all_nan_betas)]"
    by code_simp
  have g6: "\<not> list_all (\<lambda>r. \<not> isl (example_OLS (snd r) example_design_matrix))
      (beta_rows all_nan_betas)"
    by code_simp
  from get_dmp_rows_and_columns
    [where dmatrix = example_dmatrix and formula = "''~age''" and sample_sheet = example_sheet
       and keep_na = True and betas = example_betas and OLS = example_OLS,
     OF h1 h2 h3 h4 h5] h6
  obtain df where
    "get_dmp example_dmatrix example_OLS [4, 2, 0, 1, 3] example_betas ''~age''
       example_sheet True = ([Info_start_get_dmp, Info_get_dmp_done], Inr (Some df))"
    "dmp_index df = map fst (beta_rows example_betas)"
    "dmp_columns df = [''p_value'', ''t_value_age'', ''estimate_age'', ''std_err_age'']"
    unfolding isl by auto
  moreover from get_dmp_rows_and_columns
    [where dmatrix = example_dmatrix and formula = "''~age''" and sample_sheet = example_sheet
       and keep_na = True and betas = all_nan_betas and OLS = example_OLS,
     OF h1 h2 g3 g4 h5] g6
  obtain e where
    "get_dmp example_dmatrix example_OLS [1, 0] all_nan_betas ''~age'' example_sheet True =
       ([Info_start_get_dmp], Inl e)"
    unfolding isl by auto
  ultimately show ?thesis
    using h1 h2 h4 h5 h6 i g4 g6 by auto
qed

text \<open>
  The claim as stated gives the table exactly the rows of the beta matrix. With
  \<^verbatim>\<open>keep_na=False\<close> the probe \<^verbatim>\<open>cg3\<close>, which has a missing value, is dropped before the
  fit and has no row in the table, although every fit returns.
\<close>

theorem get_dmp_keep_na_counterexample:
  "map fst (beta_rows example_betas) = [''cg4'', ''cg5'', ''cg1'', ''cg2'', ''cg3'']
   \<and> get_dmp example_dmatrix example_OLS [2, 0, 1, 3] example_betas ''~age'' example_sheet False =
       ([Info_start_get_dmp, Info_get_dmp_done],
        Inr (Some \<lparr>dmp_index = [''cg4'', ''cg5'', ''cg1'', ''cg2''],
                    dmp_columns = [''p_value'', ''t_value_age'', ''estimate_age'', ''std_err_age''],
                    dmp_values =
                      [[None, None, Some 0, None], [None, None, Some 0, None],
                       [None, None, Some 0, None], [None, None, Some (1 / 200), None]]\<rparr>))"
  by code_simp

section \<open>C10: the re-merge needs every probe of the beta matrix in the annotation\<close>

text \<open>
  C10, as amended. The re-merge selects the rows of the full coordinate table by the whole
  index of the beta matrix, and \<^verbatim>\<open>.loc\<close> returns rows exactly when every label is in the
  table. So when a probe of the beta matrix is absent from the annotation and the run gets
  past the check for an empty join (lines 154 to 156), \<^verbatim>\<open>get_dmr\<close> raises instead of
  returning a table: with a given cut-off the exception is the \<^verbatim>\<open>KeyError\<close> of \<^verbatim>\<open>.loc\<close>.
\<close>

theorem get_dmr_unannotated_probe_raises:
  assumes "k \<in> fst ` set (beta_rows betas)"
    and "k \<notin> fst ` set probe_coords_df"
    and "join_probes rps betas probe_coords_df \<noteq> []"
  shows "(\<exists>e. snd (get_dmr rps quantile betas probe_coords_df dist_cutoff seg_per_locus) = Inl e)
       \<and> snd (get_dmr rps quantile betas probe_coords_df (Some c) seg_per_locus) = Inl KeyError
       \<and> (\<forall>ks. (\<exists>rows. loc probe_coords_df ks = Inr rows) \<longleftrightarrow> set ks \<subseteq> fst ` set probe_coords_df)"
proof -
  let ?ks = "map fst (beta_rows betas)"
  from assms(1,2) have "\<not> set ?ks \<subseteq> fst ` set probe_coords_df"
    by auto
  then have m: "merge_segments probe_coords_df ?ks sid = ([], Inl KeyError)" for sid
    by (rule merge_segments_KeyError)
  have a: "\<exists>e. snd (get_dmr rps quantile betas probe_coords_df dist_cutoff seg_per_locus) = Inl e"
    using assms(3) m
    by (auto simp: get_dmr_def Let_def split: prod.splits sum.splits)
  have b: "snd (get_dmr rps quantile betas probe_coords_df (Some c) seg_per_locus) = Inl KeyError"
    using assms(3) m
    by (simp add: get_dmr_def Let_def determine_cutoff_given)
  from a b show ?thesis
    by (simp add: loc_Inr_iff)
qed


theorem get_dmr_unannotated_probe_raises_witness:
  "''cg9'' \<in> fst ` set (beta_rows unannotated_betas)
   \<and> ''cg9'' \<notin> fst ` set example_ranges
   \<and> join_probes remove_probe_suffix unannotated_betas example_ranges \<noteq> []
   \<and> snd (get_dmr remove_probe_suffix np_quantile unannotated_betas example_ranges
            (Some (1 / 10)) (1 / 2)) = Inl KeyError"
proof -
  have h1: "''cg9'' \<in> fst ` set (beta_rows unannotated_betas)"
    by code_simp
  have h2: "''cg9'' \<notin> fst ` set example_ranges"
    by code_simp
  have h3: "join_probes remove_probe_suffix unannotated_betas example_ranges \<noteq> []"
    by code_simp
  from get_dmr_unannotated_probe_raises [OF h1 h2 h3] h1 h2 h3 show ?thesis
    by blast
qed

text \<open>
  The claim as stated lets every beta probe that the annotation lacks raise. When the
  annotation has no range of non-zero width, the join is empty and the early return comes
  first: the run logs the error and returns the empty table, although \<^verbatim>\<open>cg9\<close> is not
  annotated.
\<close>

theorem get_dmr_unannotated_probe_counterexample:
  "''cg9'' \<in> fst ` set (beta_rows unannotated_betas)
   \<and> ''cg9'' \<notin> fst ` set zero_width_ranges
   \<and> get_dmr remove_probe_suffix np_quantile unannotated_betas zero_width_ranges
        (Some (1 / 10)) (1 / 2) = ([Info_start_get_dmr, Error_no_match], Inr [])"
  by code_simp

end
